theory Spec2Isabelle
  imports Complex_Main
begin

section \<open>Strings as Python uses them\<close>

text \<open>
  Python \<open>str\<close> values are modelled as \<open>string\<close>. \<open>startswith\<close> is
  \<open>s.startswith(p)\<close>, \<open>contains sub s\<close> is \<open>sub in s\<close>.
\<close>

fun startswith :: "string \<Rightarrow> string \<Rightarrow> bool" where
  "startswith s [] = True"
| "startswith [] (p # ps) = False"
| "startswith (c # cs) (p # ps) = (c = p \<and> startswith cs ps)"

fun contains :: "string \<Rightarrow> string \<Rightarrow> bool" where
  "contains sub [] = (sub = [])"
| "contains sub (c # cs) = (startswith (c # cs) sub \<or> contains sub cs)"

text \<open>
  The characters \<open>str.strip()\<close> removes, among the code points below 256:
  tab, line feed, vertical tab, form feed, carriage return, the separators
  0x1C..0x1F, space, 0x85 and 0xA0.
\<close>

definition is_space :: "char \<Rightarrow> bool" where
  "is_space c = (c \<in> set [CHR 0x09, CHR 0x0A, CHR 0x0B, CHR 0x0C, CHR 0x0D,
                           CHR 0x1C, CHR 0x1D, CHR 0x1E, CHR 0x1F, CHR 0x20,
                           CHR 0x85, CHR 0xA0])"

definition lstrip :: "string \<Rightarrow> string" where
  "lstrip s = dropWhile is_space s"

definition rstrip :: "string \<Rightarrow> string" where
  "rstrip s = rev (dropWhile is_space (rev s))"

definition strip :: "string \<Rightarrow> string" where
  "strip s = rstrip (lstrip s)"

text \<open>
  \<open>str.lower()\<close> on the ASCII letters; the keywords the code searches for after
  lowering are ASCII, and no other character below 256 lowers to an ASCII letter.
\<close>

definition lower_char :: "char \<Rightarrow> char" where
  "lower_char c =
     (if (65::nat) \<le> of_char c \<and> of_char c \<le> (90::nat)
      then char_of (of_char c + (32::nat)) else c)"

definition lower :: "string \<Rightarrow> string" where
  "lower s = map lower_char s"

section \<open>Python values\<close>

text \<open>
  The values that reach the mappers as \<open>Any\<close> or \<open>Dict[str, Any]\<close> come from
  parsed JSON: null, booleans, numbers, strings, lists and dicts with string
  keys. A dict is the list of its items in order, read with \<open>map_of\<close>; its keys
  are taken to be distinct, as they are in a Python dict.
\<close>

datatype pyval =
    PNone
  | PBool bool
  | PInt int
  | PFloat real
  | PStr string
  | PList "pyval list"
  | PDict "(string \<times> pyval) list"

text \<open>
  What \<open>json.loads\<close> does on a string: it returns the value, or raises
  \<open>JSONDecodeError\<close> on a text that is not JSON, or raises \<open>RecursionError\<close>
  on a text nested too deeply for the parser (a thousand opening brackets),
  which is an \<open>Exception\<close> but not a \<open>JSONDecodeError\<close>.
\<close>

datatype loads_result = Loaded pyval | JSONDecodeError | RecursionError

text \<open>
  The library functions the code calls, taken as parameters: \<open>json.loads\<close>,
  \<open>json.dumps\<close>, \<open>json.dumps(_, indent=2)\<close> and \<open>str\<close>. On the values of
  \<open>pyval\<close> the last three return a string and do not raise, so that the
  \<open>except\<close> branches around them are not reached.
\<close>

record pylib =
  json_loads :: "string \<Rightarrow> loads_result"
  json_dumps :: "pyval \<Rightarrow> string"
  json_dumps_indent :: "pyval \<Rightarrow> string"
  py_str :: "pyval \<Rightarrow> string"

text \<open>
  A field that the code reads with a default (\<open>getattr(o, name, default)\<close>,
  \<open>d.get(name, default)\<close>) has three cases: the attribute or key is absent and
  the default is taken, it is present and null, or it holds a value.
\<close>

datatype 'a field = Absent | Null | Val 'a

text \<open>
  An id in the output: the one received, null, or the fallback the code
  generates from a fresh UUID (\<open>msg_...\<close>, \<open>tool_...\<close>, \<open>toolu_...\<close>), whose
  digits are not modelled.
\<close>

datatype ident = GivenId string | NullId | GeneratedId

text \<open>The usage counts of a response or chunk; \<open>None\<close> is a count that is absent.\<close>

record usage_info =
  prompt_tokens :: "int option"
  completion_tokens :: "int option"

datatype py_error = TypeError

text \<open>\<open>d.get(k, default)\<close>.\<close>

definition dict_get :: "(string \<times> pyval) list \<Rightarrow> string \<Rightarrow> pyval \<Rightarrow> pyval" where
  "dict_get d k dflt = (case map_of d k of None \<Rightarrow> dflt | Some v \<Rightarrow> v)"

text \<open>
  \<open>item.get("text", "") + "\n"\<close>: the concatenation raises \<open>TypeError\<close> when
  the entry is not a string.
\<close>

definition text_line :: "(string \<times> pyval) list \<Rightarrow> py_error + string" where
  "text_line d =
     (case dict_get d ''text'' (PStr []) of
        PStr t \<Rightarrow> Inr (t @ ''\<newline>'')
      | _ \<Rightarrow> Inl TypeError)"

text \<open>An f-string field \<open>{v}\<close>: a string as it is, any other value through \<open>str\<close>.\<close>

definition format_value :: "pylib \<Rightarrow> pyval \<Rightarrow> string" where
  "format_value L v = (case v of PStr s \<Rightarrow> s | _ \<Rightarrow> py_str L v)"


section \<open>The content normalizer: \<open>parse_tool_result_content\<close>\<close>

text \<open>Lines 375-391, the body of the loop over a list.\<close>

definition item_line :: "pylib \<Rightarrow> pyval \<Rightarrow> py_error + string" where
  "item_line L item =
     (case item of
        PDict d \<Rightarrow>
          if map_of d ''type'' = Some (PStr ''text'') then text_line d
          else if map_of d ''text'' \<noteq> None then text_line d
          else Inr (json_dumps L item @ ''\<newline>'')
      | PStr s \<Rightarrow> Inr (s @ ''\<newline>'')
      | _ \<Rightarrow> Inr (py_str L item @ ''\<newline>''))"

fun items_text :: "pylib \<Rightarrow> string \<Rightarrow> pyval list \<Rightarrow> py_error + string" where
  "items_text L result [] = Inr result"
| "items_text L result (item # items) =
     (case item_line L item of
        Inl e \<Rightarrow> Inl e
      | Inr l \<Rightarrow> items_text L (result @ l) items)"

text \<open>
  Lines 364-406. The result is a Python value: the branch for a dict tagged
  \<open>text\<close> returns its \<open>text\<close> entry whatever it is.
\<close>

definition parse_tool_result_content :: "pylib \<Rightarrow> pyval \<Rightarrow> py_error + pyval" where
  "parse_tool_result_content L content =
     (case content of
        PNone \<Rightarrow> Inr (PStr ''No content provided'')
      | PStr s \<Rightarrow> Inr (PStr s)
      | PList items \<Rightarrow>
          (case items_text L [] items of
             Inl e \<Rightarrow> Inl e
           | Inr result \<Rightarrow> Inr (PStr (strip result)))
      | PDict d \<Rightarrow>
          if map_of d ''type'' = Some (PStr ''text'') then Inr (dict_get d ''text'' (PStr []))
          else Inr (PStr (json_dumps L content))
      | _ \<Rightarrow> Inr (PStr (py_str L content)))"

section \<open>The request mapper: \<open>convert_anthropic_to_litellm\<close>\<close>

subsection \<open>The request\<close>

text \<open>
  The content blocks of a message. The \<open>source\<close> of an image, the \<open>input\<close> of a
  tool use and the \<open>content\<close> of a tool result are Python values.
\<close>

datatype content_block =
    BlockText string
  | BlockImage pyval
  | BlockToolUse string string pyval
  | BlockToolResult string pyval

datatype message_content = ContentStr string | ContentBlocks "content_block list"

record message =
  role :: string
  content :: message_content

record tool =
  name :: string
  description :: "string option"
  input_schema :: pyval

text \<open>The system prompt: a string, or the texts of a list of text blocks.\<close>

datatype system_prompt = SystemStr string | SystemBlocks "string list"

record messages_request =
  model :: string
  max_tokens :: int
  messages :: "message list"
  system :: "system_prompt option"
  stop_sequences :: "string list option"
  stream :: "bool option"
  temperature :: "real option"
  top_p :: "real option"
  top_k :: "int option"
  tools :: "tool list option"
  tool_choice :: "(string \<times> pyval) list option"
  reasoning_effort :: "string option"

subsection \<open>The downstream request\<close>

datatype out_part =
    PartText string
  | PartImage pyval
  | PartToolUse string string pyval
  | PartToolResult string pyval

datatype out_content = OutText string | OutParts "out_part list"

record out_message =
  out_role :: string
  out_content :: out_content

record openai_tool =
  function_name :: string
  function_description :: "string option"
  function_parameters :: pyval

datatype out_tool_choice = ChoiceStr string | ChoiceFunction pyval

text \<open>A key that the code leaves out of the dict is \<open>None\<close> here.\<close>

record litellm_request =
  out_model :: string
  out_messages :: "out_message list"
  out_max_tokens :: int
  out_temperature :: "real option"
  out_stream :: "bool option"
  out_reasoning_effort :: "string option"
  out_stop :: "string list option"
  out_top_p :: "real option"
  out_top_k :: "int option"
  out_tools :: "openai_tool list option"
  out_tool_choice :: "out_tool_choice option"

subsection \<open>The messages\<close>

text \<open>Lines 416-431.\<close>

definition system_messages :: "system_prompt option \<Rightarrow> out_message list" where
  "system_messages sys =
     (case sys of
        None \<Rightarrow> []
      | Some (SystemStr s) \<Rightarrow>
          if s = [] then [] else [\<lparr> out_role = ''system'', out_content = OutText s \<rparr>]
      | Some (SystemBlocks bs) \<Rightarrow>
          if bs = [] then []
          else
            (let system_text = concat (map (\<lambda>t. t @ ''\<newline>\<newline>'') bs)
             in if system_text = [] then []
                else [\<lparr> out_role = ''system'', out_content = OutText (strip system_text) \<rparr>]))"

text \<open>
  Lines 462-475, the body of the loop over a tool result whose content is a
  list. The items are plain Python values, which have no \<open>type\<close> attribute, so
  the first test fails for all of them; an item that is not a dict adds nothing.
\<close>

definition result_item_line :: "pylib \<Rightarrow> pyval \<Rightarrow> py_error + string" where
  "result_item_line L content_block =
     (case content_block of
        PDict d \<Rightarrow>
          if map_of d ''type'' = Some (PStr ''text'') then text_line d
          else if map_of d ''text'' \<noteq> None then text_line d
          else Inr (json_dumps L content_block @ ''\<newline>'')
      | _ \<Rightarrow> Inr [])"

fun result_items_text :: "pylib \<Rightarrow> string \<Rightarrow> pyval list \<Rightarrow> py_error + string" where
  "result_items_text L result_content [] = Inr result_content"
| "result_items_text L result_content (content_block # rest) =
     (case result_item_line L content_block of
        Inl e \<Rightarrow> Inl e
      | Inr l \<Rightarrow> result_items_text L (result_content @ l) rest)"

text \<open>
  Lines 456-490: \<open>result_content\<close> as the f-string of line 493 prints it. The
  branch for a dict tagged \<open>text\<close> takes the \<open>text\<close> entry whatever it is.
\<close>

definition tool_result_text :: "pylib \<Rightarrow> pyval \<Rightarrow> py_error + string" where
  "tool_result_text L c =
     (case c of
        PStr s \<Rightarrow> Inr s
      | PList items \<Rightarrow> result_items_text L [] items
      | PDict d \<Rightarrow>
          if map_of d ''type'' = Some (PStr ''text'')
          then Inr (format_value L (dict_get d ''text'' (PStr [])))
          else Inr (json_dumps L c)
      | _ \<Rightarrow> Inr (py_str L c))"

text \<open>Lines 448-493, what one block adds to \<open>text_content\<close>.\<close>

definition tool_result_fragment :: "pylib \<Rightarrow> content_block \<Rightarrow> py_error + string" where
  "tool_result_fragment L block =
     (case block of
        BlockText t \<Rightarrow> Inr (t @ ''\<newline>'')
      | BlockToolResult tool_id c \<Rightarrow>
          (case tool_result_text L c of
             Inl e \<Rightarrow> Inl e
           | Inr result_content \<Rightarrow>
               Inr (''Tool result for '' @ tool_id @ '':\<newline>'' @ result_content @ ''\<newline>''))
      | _ \<Rightarrow> Inr [])"

fun user_tool_result_text :: "pylib \<Rightarrow> string \<Rightarrow> content_block list \<Rightarrow> py_error + string" where
  "user_tool_result_text L text_content [] = Inr text_content"
| "user_tool_result_text L text_content (block # blocks) =
     (case tool_result_fragment L block of
        Inl e \<Rightarrow> Inl e
      | Inr f \<Rightarrow> user_tool_result_text L (text_content @ f) blocks)"

fun is_tool_result :: "content_block \<Rightarrow> bool" where
  "is_tool_result (BlockToolResult i c) = True"
| "is_tool_result b = False"

definition text_part :: "string \<Rightarrow> pyval" where
  "text_part t = PDict [(''type'', PStr ''text''), (''text'', PStr t)]"

text \<open>Lines 500-536, the regular handling of a block.\<close>

definition process_block :: "pylib \<Rightarrow> content_block \<Rightarrow> out_part" where
  "process_block L block =
     (case block of
        BlockText t \<Rightarrow> PartText t
      | BlockImage src \<Rightarrow> PartImage src
      | BlockToolUse i n inp \<Rightarrow> PartToolUse i n inp
      | BlockToolResult i c \<Rightarrow>
          PartToolResult i
            (case c of
               PStr s \<Rightarrow> PList [text_part s]
             | PList items \<Rightarrow> c
             | _ \<Rightarrow> PList [text_part (py_str L c)]))"

text \<open>Lines 434-538, one message.\<close>

definition convert_message :: "pylib \<Rightarrow> message \<Rightarrow> py_error + out_message" where
  "convert_message L msg =
     (case content msg of
        ContentStr s \<Rightarrow> Inr \<lparr> out_role = role msg, out_content = OutText s \<rparr>
      | ContentBlocks blocks \<Rightarrow>
          if role msg = ''user'' \<and> list_ex is_tool_result blocks then
            (case user_tool_result_text L [] blocks of
               Inl e \<Rightarrow> Inl e
             | Inr text_content \<Rightarrow>
                 Inr \<lparr> out_role = ''user'', out_content = OutText (strip text_content) \<rparr>)
          else Inr \<lparr> out_role = role msg, out_content = OutParts (map (process_block L) blocks) \<rparr>)"

fun convert_messages :: "pylib \<Rightarrow> message list \<Rightarrow> py_error + out_message list" where
  "convert_messages L [] = Inr []"
| "convert_messages L (msg # msgs) =
     (case convert_message L msg of
        Inl e \<Rightarrow> Inl e
      | Inr m \<Rightarrow>
          (case convert_messages L msgs of
             Inl e \<Rightarrow> Inl e
           | Inr ms \<Rightarrow> Inr (m # ms)))"

subsection \<open>The parameters\<close>

text \<open>Lines 556-560 (and 635-639): the model name without its provider prefix.\<close>

definition clean_model_name :: "string \<Rightarrow> string" where
  "clean_model_name m =
     (if startswith m ''anthropic/'' then drop (length ''anthropic/'') m
      else if startswith m ''openai/'' then drop (length ''openai/'') m
      else m)"

text \<open>Lines 540-543; the flag is the global \<open>USE_OPENAI_MODELS\<close>.\<close>

definition capped_max_tokens :: "bool \<Rightarrow> messages_request \<Rightarrow> int" where
  "capped_max_tokens use_openai_models req =
     (if startswith (model req) ''openai/'' \<or> use_openai_models
      then min (max_tokens req) 16384
      else max_tokens req)"

text \<open>The truth value of an optional string: false for \<open>None\<close> and for the empty string.\<close>

definition truthy_str :: "string option \<Rightarrow> bool" where
  "truthy_str v = (case v of None \<Rightarrow> False | Some t \<Rightarrow> t \<noteq> [])"

text \<open>Lines 562-569.\<close>

definition reasoning_effort_param :: "messages_request \<Rightarrow> string option" where
  "reasoning_effort_param req =
     (let clean_model = clean_model_name (model req)
      in if truthy_str (reasoning_effort req) then reasoning_effort req
         else if contains ''o3-'' clean_model \<or> contains ''o1'' clean_model then Some ''high''
         else None)"

text \<open>Lines 582-602.\<close>

definition convert_tool :: "tool \<Rightarrow> openai_tool" where
  "convert_tool t = \<lparr> function_name = name t, function_description = description t,
                      function_parameters = input_schema t \<rparr>"

text \<open>Lines 611-624.\<close>

definition convert_tool_choice :: "(string \<times> pyval) list \<Rightarrow> out_tool_choice" where
  "convert_tool_choice d =
     (let choice_type = map_of d ''type''
      in if choice_type = Some (PStr ''auto'') then ChoiceStr ''auto''
         else if choice_type = Some (PStr ''any'') then ChoiceStr ''any''
         else if choice_type = Some (PStr ''tool'') \<and> map_of d ''name'' \<noteq> None
              then ChoiceFunction (dict_get d ''name'' PNone)
         else ChoiceStr ''auto'')"

text \<open>
  Lines 408-626. The optional parameters are added when they are truthy: a
  list when it is not empty, a number when it is not zero.
\<close>

definition convert_anthropic_to_litellm ::
    "pylib \<Rightarrow> bool \<Rightarrow> messages_request \<Rightarrow> py_error + litellm_request" where
  "convert_anthropic_to_litellm L use_openai_models req =
     (case convert_messages L (messages req) of
        Inl e \<Rightarrow> Inl e
      | Inr ms \<Rightarrow>
          Inr \<lparr> out_model = model req,
                out_messages = system_messages (system req) @ ms,
                out_max_tokens = capped_max_tokens use_openai_models req,
                out_temperature = temperature req,
                out_stream = stream req,
                out_reasoning_effort = reasoning_effort_param req,
                out_stop = (case stop_sequences req of
                              None \<Rightarrow> None
                            | Some ss \<Rightarrow> if ss = [] then None else Some ss),
                out_top_p = (case top_p req of
                               None \<Rightarrow> None
                             | Some p \<Rightarrow> if p = 0 then None else Some p),
                out_top_k = (case top_k req of
                               None \<Rightarrow> None
                             | Some k \<Rightarrow> if k = 0 then None else Some k),
                out_tools = (case tools req of
                               None \<Rightarrow> None
                             | Some ts \<Rightarrow> if ts = [] then None else Some (map convert_tool ts)),
                out_tool_choice = (case tool_choice req of
                                     None \<Rightarrow> None
                                   | Some d \<Rightarrow> if d = [] then None
                                               else Some (convert_tool_choice d)) \<rparr>)"

section \<open>The response mapper: \<open>convert_litellm_to_anthropic\<close>\<close>

subsection \<open>The downstream response\<close>

text \<open>
  The code accepts a response, and each tool call in it, either as an object
  read with \<open>getattr\<close> or as a dict read with \<open>get\<close>; the two readings differ
  where a part is absent or null.
\<close>

datatype shape = TypedObject | Mapping

record function_call =
  fc_name :: "string field"
  fc_arguments :: "pyval field"

record tool_call =
  call_shape :: shape
  call_id :: "string field"
  call_function :: "function_call field"

record response_message =
  msg_content :: "string field"
  msg_tool_calls :: "tool_call list field"

record response_choice =
  choice_message :: "response_message field"
  choice_finish_reason :: "string field"

record litellm_response =
  response_shape :: shape
  response_id :: "string field"
  response_choices :: "response_choice list"
  response_usage :: usage_info

subsection \<open>The response returned to the client\<close>

datatype response_block = RText string | RToolUse ident "string option" pyval

record messages_response =
  resp_id :: ident
  resp_model :: string
  resp_role :: string
  resp_content :: "response_block list"
  resp_stop_reason :: string
  resp_stop_sequence :: "string option"
  resp_input_tokens :: int
  resp_output_tokens :: int

text \<open>
  Every failure inside the function is caught and raised again as an
  \<open>HTTPException\<close>; its status code is kept, its detail text is not modelled.
\<close>

datatype http_error = HTTPException int

subsection \<open>Extraction\<close>

text \<open>
  Lines 645-678, the message of the first choice (\<open>None\<close>: no message, the
  defaults are taken). An object without choices has no message; a dict
  without choices fails at \<open>choices[0]\<close>. An object whose choice lacks the
  attribute fails, and so does a dict whose \<open>message\<close> is null.
\<close>

definition first_message :: "litellm_response \<Rightarrow> http_error + response_message option" where
  "first_message r =
     (case response_choices r of
        [] \<Rightarrow> (case response_shape r of
                 TypedObject \<Rightarrow> Inr None
               | Mapping \<Rightarrow> Inl (HTTPException 500))
      | ch # _ \<Rightarrow>
          (case choice_message ch of
             Val m \<Rightarrow> Inr (Some m)
           | Null \<Rightarrow> (case response_shape r of
                        TypedObject \<Rightarrow> Inr None
                      | Mapping \<Rightarrow> Inl (HTTPException 500))
           | Absent \<Rightarrow> (case response_shape r of
                          TypedObject \<Rightarrow> Inl (HTTPException 500)
                        | Mapping \<Rightarrow> Inr None)))"

text \<open>Lines 651 and 676, the finish reason (\<open>None\<close> is Python's \<open>None\<close>).\<close>

definition first_finish_reason :: "litellm_response \<Rightarrow> http_error + string option" where
  "first_finish_reason r =
     (case response_choices r of
        [] \<Rightarrow> Inr (Some ''stop'')
      | ch # _ \<Rightarrow>
          (case choice_finish_reason ch of
             Val f \<Rightarrow> Inr (Some f)
           | Null \<Rightarrow> Inr None
           | Absent \<Rightarrow> (case response_shape r of
                          TypedObject \<Rightarrow> Inl (HTTPException 500)
                        | Mapping \<Rightarrow> Inr (Some ''stop''))))"

text \<open>Lines 649 and 674: the text, \<open>None\<close> when it is null.\<close>

definition message_text :: "response_message option \<Rightarrow> string option" where
  "message_text m =
     (case m of
        None \<Rightarrow> Some []
      | Some msg \<Rightarrow> (case msg_content msg of Absent \<Rightarrow> Some [] | Null \<Rightarrow> None | Val t \<Rightarrow> Some t))"

text \<open>Lines 650 and 675: the tool calls, the empty list when there are none.\<close>

definition message_tool_calls :: "response_message option \<Rightarrow> tool_call list" where
  "message_tool_calls m =
     (case m of
        None \<Rightarrow> []
      | Some msg \<Rightarrow> (case msg_tool_calls msg of Absent \<Rightarrow> [] | Null \<Rightarrow> [] | Val tcs \<Rightarrow> tcs))"

subsection \<open>Tool calls\<close>

text \<open>
  Lines 699-708: the function of a tool call (\<open>None\<close>: the defaults are
  taken). A dict whose \<open>function\<close> is null fails at \<open>function.get\<close>.
\<close>

definition function_of :: "tool_call \<Rightarrow> http_error + function_call option" where
  "function_of tc =
     (case call_function tc of
        Val f \<Rightarrow> Inr (Some f)
      | Absent \<Rightarrow> Inr None
      | Null \<Rightarrow> (case call_shape tc of
                   TypedObject \<Rightarrow> Inr None
                 | Mapping \<Rightarrow> Inl (HTTPException 500)))"

definition response_ident :: "litellm_response \<Rightarrow> ident" where
  "response_ident r =
     (case response_id r of Absent \<Rightarrow> GeneratedId | Null \<Rightarrow> NullId | Val i \<Rightarrow> GivenId i)"

definition call_ident :: "tool_call \<Rightarrow> ident" where
  "call_ident tc =
     (case call_id tc of Absent \<Rightarrow> GeneratedId | Null \<Rightarrow> NullId | Val i \<Rightarrow> GivenId i)"

definition call_name :: "function_call option \<Rightarrow> string option" where
  "call_name f =
     (case f of
        None \<Rightarrow> Some []
      | Some fc \<Rightarrow> (case fc_name fc of Absent \<Rightarrow> Some [] | Null \<Rightarrow> None | Val n \<Rightarrow> Some n))"

definition call_arguments :: "function_call option \<Rightarrow> pyval" where
  "call_arguments f =
     (case f of
        None \<Rightarrow> PStr ''{}''
      | Some fc \<Rightarrow> (case fc_arguments fc of Absent \<Rightarrow> PStr ''{}'' | Null \<Rightarrow> PNone | Val v \<Rightarrow> v))"

text \<open>
  Lines 711-716: a string is parsed as JSON, and kept under \<open>raw\<close> when
  \<open>json.loads\<close> raises \<open>JSONDecodeError\<close>. The \<open>except\<close> names that exception
  only: any other one leaves the function through the handler of line 807,
  which raises \<open>HTTPException\<close> with the status 500.
\<close>

definition parse_arguments :: "pylib \<Rightarrow> pyval \<Rightarrow> http_error + pyval" where
  "parse_arguments L arguments =
     (case arguments of
        PStr a \<Rightarrow> (case json_loads L a of
                     Loaded v \<Rightarrow> Inr v
                   | JSONDecodeError \<Rightarrow> Inr (PDict [(''raw'', PStr a)])
                   | RecursionError \<Rightarrow> Inl (HTTPException 500))
      | _ \<Rightarrow> Inr arguments)"

text \<open>Lines 695-725, the body of the loop for a model with tool blocks.\<close>

definition tool_use_block :: "pylib \<Rightarrow> tool_call \<Rightarrow> http_error + response_block" where
  "tool_use_block L tc =
     (case function_of tc of
        Inl e \<Rightarrow> Inl e
      | Inr f \<Rightarrow>
          (case parse_arguments L (call_arguments f) of
             Inl e \<Rightarrow> Inl e
           | Inr input \<Rightarrow> Inr (RToolUse (call_ident tc) (call_name f) input)))"

fun tool_use_blocks :: "pylib \<Rightarrow> tool_call list \<Rightarrow> http_error + response_block list" where
  "tool_use_blocks L [] = Inr []"
| "tool_use_blocks L (tc # tcs) =
     (case tool_use_block L tc of
        Inl e \<Rightarrow> Inl e
      | Inr b \<Rightarrow>
          (case tool_use_blocks L tcs of
             Inl e \<Rightarrow> Inl e
           | Inr bs \<Rightarrow> Inr (b # bs)))"

text \<open>Lines 751-758; here too only \<open>JSONDecodeError\<close> is caught.\<close>

definition arguments_str :: "pylib \<Rightarrow> pyval \<Rightarrow> http_error + string" where
  "arguments_str L arguments =
     (case arguments of
        PStr a \<Rightarrow> (case json_loads L a of
                     Loaded args_dict \<Rightarrow> Inr (json_dumps_indent L args_dict)
                   | JSONDecodeError \<Rightarrow> Inr a
                   | RecursionError \<Rightarrow> Inl (HTTPException 500))
      | _ \<Rightarrow> Inr (json_dumps_indent L arguments))"

text \<open>Lines 737-760, the body of the loop for a model without tool blocks.\<close>

definition tool_text_entry :: "pylib \<Rightarrow> tool_call \<Rightarrow> http_error + string" where
  "tool_text_entry L tc =
     (case function_of tc of
        Inl e \<Rightarrow> Inl e
      | Inr f \<Rightarrow>
          (case arguments_str L (call_arguments f) of
             Inl e \<Rightarrow> Inl e
           | Inr args \<Rightarrow>
               Inr (''Tool: '' @ (case call_name f of None \<Rightarrow> ''None'' | Some n \<Rightarrow> n) @
                    ''\<newline>Arguments: '' @ args @ ''\<newline>\<newline>'')))"

fun tool_text :: "pylib \<Rightarrow> string \<Rightarrow> tool_call list \<Rightarrow> http_error + string" where
  "tool_text L acc [] = Inr acc"
| "tool_text L acc (tc # tcs) =
     (case tool_text_entry L tc of
        Inl e \<Rightarrow> Inl e
      | Inr t \<Rightarrow> tool_text L (acc @ t) tcs)"

subsection \<open>The response\<close>

text \<open>Lines 776-785: the stop reason of the non-streaming path.\<close>

definition response_stop_reason :: "string option \<Rightarrow> string" where
  "response_stop_reason finish_reason =
     (if finish_reason = Some ''stop'' then ''end_turn''
      else if finish_reason = Some ''length'' then ''max_tokens''
      else if finish_reason = Some ''tool_calls'' then ''tool_use''
      else ''end_turn'')"

text \<open>
  What the constructor of \<open>MessagesResponse\<close> checks: the id of the response
  is a string, and on a block, the id and the name of a tool use are strings
  and its input is a dict.
\<close>

fun valid_block :: "response_block \<Rightarrow> bool" where
  "valid_block (RText t) = True"
| "valid_block (RToolUse i n (PDict d)) = (i \<noteq> NullId \<and> n \<noteq> None)"
| "valid_block (RToolUse i n v) = False"

text \<open>Lines 680-766: the content blocks before the constructor checks them.\<close>

definition response_blocks ::
    "pylib \<Rightarrow> bool \<Rightarrow> string option \<Rightarrow> tool_call list \<Rightarrow> http_error + response_block list" where
  "response_blocks L is_claude_model content_text tool_calls =
     (let content0 = (case content_text of
                        None \<Rightarrow> []
                      | Some t \<Rightarrow> if t = [] then [] else [RText t])
      in if tool_calls \<noteq> [] \<and> is_claude_model then
           (case tool_use_blocks L tool_calls of
              Inl e \<Rightarrow> Inl e
            | Inr bs \<Rightarrow> Inr (content0 @ bs))
         else if tool_calls \<noteq> [] \<and> \<not> is_claude_model then
           (case tool_text L ''\<newline>\<newline>Tool usage:\<newline>'' tool_calls of
              Inl e \<Rightarrow> Inl e
            | Inr tt \<Rightarrow>
                (case content0 of
                   RText t # rest \<Rightarrow> Inr (RText (t @ tt) # rest)
                 | _ \<Rightarrow> Inr (content0 @ [RText tt])))
         else Inr content0)"

text \<open>
  Lines 628-882. Of the request only the model name is read. The record of
  the failure in the request history is not modelled.
\<close>

definition convert_litellm_to_anthropic ::
    "pylib \<Rightarrow> litellm_response \<Rightarrow> messages_request \<Rightarrow> http_error + messages_response" where
  "convert_litellm_to_anthropic L r original_request =
     (let is_claude_model = startswith (clean_model_name (model original_request)) ''claude-''
      in (case first_message r of
            Inl e \<Rightarrow> Inl e
          | Inr m \<Rightarrow>
              (case first_finish_reason r of
                 Inl e \<Rightarrow> Inl e
               | Inr finish_reason \<Rightarrow>
                   (case response_blocks L is_claude_model (message_text m)
                           (message_tool_calls m) of
                      Inl e \<Rightarrow> Inl e
                    | Inr content0 \<Rightarrow>
                        (let blocks = (if content0 = [] then [RText []] else content0)
                         in if response_ident r = NullId \<or> \<not> list_all valid_block blocks
                            then Inl (HTTPException 500)
                            else
                              Inr \<lparr> resp_id = response_ident r,
                                    resp_model = model original_request,
                                    resp_role = ''assistant'',
                                    resp_content = blocks,
                                    resp_stop_reason = response_stop_reason finish_reason,
                                    resp_stop_sequence = None,
                                    resp_input_tokens =
                                      (case prompt_tokens (response_usage r) of
                                         None \<Rightarrow> 0 | Some n \<Rightarrow> n),
                                    resp_output_tokens =
                                      (case completion_tokens (response_usage r) of
                                         None \<Rightarrow> 0 | Some n \<Rightarrow> n) \<rparr>)))))"

section \<open>The streaming transcoder: \<open>handle_streaming\<close>\<close>

subsection \<open>Downstream chunks\<close>

record function_delta =
  fn_name :: "string field"
  fn_arguments :: "string field"

text \<open>
  A tool-call delta. \<open>tc_index = None\<close> is a delta without an index, which the
  code reads as index 0. \<open>tc_function = None\<close> is a delta without a function
  (absent or null). The argument fragment of a function is a string.
\<close>

record tool_call_delta =
  tc_index :: "int option"
  tc_id :: "string field"
  tc_function :: "function_delta option"

text \<open>
  The text of a delta: none (absent or null), a string, or a value that is
  neither, for which \<open>accumulated_text += delta_content\<close> raises inside the
  per-chunk \<open>try\<close>.
\<close>

datatype delta_text = NoText | Text string | NotText

record choice =
  delta_content :: delta_text
  delta_tool_calls :: "tool_call_delta list option"
  finish_reason :: "string option"

text \<open>
  \<open>NoChoices\<close>: the chunk has no \<open>choices\<close> attribute. \<open>BadChoices\<close>: a malformed
  chunk whose \<open>choices\<close> is not a sized value, so that \<open>len(chunk.choices)\<close>
  raises inside the per-chunk \<open>try\<close>.
\<close>

datatype choices_field = NoChoices | BadChoices | Choices "choice list"

record chunk =
  usage :: "usage_info option"
  choices :: choices_field

subsection \<open>Emitted events\<close>

datatype content_block_start = TextBlock string | ToolUseBlock ident "string option"

datatype block_delta = TextDelta string | InputJsonDelta string

datatype event =
    MessageStart string
  | ContentBlockStart nat content_block_start
  | Ping
  | ContentBlockDelta nat block_delta
  | ContentBlockStop nat
  | MessageDelta string "string option" int
  | MessageStop
  | Done

subsection \<open>The transcoder's local variables\<close>

text \<open>
  \<open>anthropic_tool_index\<close> is a local that Python leaves unbound until the first
  new tool call assigns it: \<open>None\<close> is the unbound local, and reading it raises.
\<close>

record state =
  tool_index :: "int option"
  current_tool_call :: "tool_call_delta option"
  tool_content :: string
  accumulated_text :: string
  text_sent :: bool
  text_block_closed :: bool
  input_tokens :: int
  output_tokens :: int
  has_sent_stop_reason :: bool
  last_tool_index :: nat
  anthropic_tool_index :: "nat option"

definition init_state :: state where
  "init_state = \<lparr> tool_index = None, current_tool_call = None, tool_content = [],
     accumulated_text = [], text_sent = False, text_block_closed = False,
     input_tokens = 0, output_tokens = 0, has_sent_stop_reason = False,
     last_tool_index = 0, anthropic_tool_index = None \<rparr>"

subsection \<open>One chunk\<close>

text \<open>Lines 933-937: the usage counts of a chunk that carries them.\<close>

definition update_usage :: "state \<Rightarrow> usage_info option \<Rightarrow> state" where
  "update_usage s u =
     (case u of
        None \<Rightarrow> s
      | Some ui \<Rightarrow>
          (let s1 = (case prompt_tokens ui of None \<Rightarrow> s | Some p \<Rightarrow> s\<lparr>input_tokens := p\<rparr>)
           in (case completion_tokens ui of None \<Rightarrow> s1 | Some c \<Rightarrow> s1\<lparr>output_tokens := c\<rparr>)))"

text \<open>
  Lines 963-969: accumulate the text and emit it while no tool call has
  started. The third component says that the concatenation raised.
\<close>

definition text_stage :: "state \<Rightarrow> delta_text \<Rightarrow> event list \<times> state \<times> bool" where
  "text_stage s dc =
     (case dc of
        NoText \<Rightarrow> ([], s, False)
      | NotText \<Rightarrow> ([], s, True)
      | Text t \<Rightarrow>
          if t = [] then ([], s, False)
          else
            (let s1 = s\<lparr>accumulated_text := accumulated_text s @ t\<rparr>
             in if tool_index s1 = None \<and> \<not> text_block_closed s1
                then ([ContentBlockDelta 0 (TextDelta t)], s1\<lparr>text_sent := True\<rparr>, False)
                else ([], s1, False)))"

text \<open>Lines 983-1000: the first tool call closes the text block.\<close>

definition close_text_for_tool :: "state \<Rightarrow> event list \<times> state" where
  "close_text_for_tool s =
     (if tool_index s = None then
        (if text_sent s \<and> \<not> text_block_closed s then
           ([ContentBlockStop 0], s\<lparr>text_block_closed := True\<rparr>)
         else if accumulated_text s \<noteq> [] \<and> \<not> text_sent s \<and> \<not> text_block_closed s then
           ([ContentBlockDelta 0 (TextDelta (accumulated_text s)), ContentBlockStop 0],
            s\<lparr>text_sent := True, text_block_closed := True\<rparr>)
         else if \<not> text_block_closed s then
           ([ContentBlockStop 0], s\<lparr>text_block_closed := True\<rparr>)
         else ([], s))
      else ([], s))"

definition tool_call_id :: "tool_call_delta \<Rightarrow> ident" where
  "tool_call_id tc =
     (case tc_id tc of Absent \<Rightarrow> GeneratedId | Null \<Rightarrow> NullId | Val i \<Rightarrow> GivenId i)"

definition tool_call_name :: "tool_call_delta \<Rightarrow> string option" where
  "tool_call_name tc =
     (case tc_function tc of
        None \<Rightarrow> Some []
      | Some f \<Rightarrow> (case fn_name f of Absent \<Rightarrow> Some [] | Null \<Rightarrow> None | Val n \<Rightarrow> Some n))"

text \<open>
  Lines 1040-1046: the argument fragment; \<open>None\<close> is Python's \<open>None\<close>. A delta
  with a null function has the arguments \<open>''\<close> in the source and one without a
  function has \<open>None\<close>; both are falsy at the only place that reads them.
\<close>

definition tool_call_arguments :: "tool_call_delta \<Rightarrow> string option" where
  "tool_call_arguments tc =
     (case tc_function tc of
        None \<Rightarrow> None
      | Some f \<Rightarrow> (case fn_arguments f of Absent \<Rightarrow> Some [] | Null \<Rightarrow> None | Val a \<Rightarrow> Some a))"

text \<open>
  Lines 1007-1067, the body of the loop over the tool-call deltas of a chunk.
  The fragment is sent as it is, whether the parse attempt of line 1057
  succeeds or raises \<open>JSONDecodeError\<close>, which is caught. The third component
  says that the body raised: the parse attempt with an exception that is not
  caught there, or the read of an unbound \<open>anthropic_tool_index\<close>.
\<close>

definition tool_call_step :: "pylib \<Rightarrow> state \<Rightarrow> tool_call_delta \<Rightarrow> event list \<times> state \<times> bool" where
  "tool_call_step L s tc =
     (let current_index = (case tc_index tc of None \<Rightarrow> 0 | Some i \<Rightarrow> i);
          (ev1, s1) =
            (if tool_index s = None \<or> Some current_index \<noteq> tool_index s then
               ([ContentBlockStart (last_tool_index s + 1)
                   (ToolUseBlock (tool_call_id tc) (tool_call_name tc))],
                s\<lparr>tool_index := Some current_index,
                  last_tool_index := last_tool_index s + 1,
                  anthropic_tool_index := Some (last_tool_index s + 1),
                  current_tool_call := Some tc,
                  tool_content := []\<rparr>)
             else ([], s))
      in (case tool_call_arguments tc of
            None \<Rightarrow> (ev1, s1, False)
          | Some a \<Rightarrow>
              if a = [] then (ev1, s1, False)
              else
                (case json_loads L a of
                   RecursionError \<Rightarrow> (ev1, s1, True)
                 | _ \<Rightarrow>
                     (case anthropic_tool_index s1 of
                        None \<Rightarrow> (ev1, s1\<lparr>tool_content := tool_content s1 @ a\<rparr>, True)
                      | Some k \<Rightarrow>
                          (ev1 @ [ContentBlockDelta k (InputJsonDelta a)],
                           s1\<lparr>tool_content := tool_content s1 @ a\<rparr>, False)))))"

fun tool_calls_loop :: "pylib \<Rightarrow> state \<Rightarrow> tool_call_delta list \<Rightarrow> event list \<times> state \<times> bool" where
  "tool_calls_loop L s [] = ([], s, False)"
| "tool_calls_loop L s (tc # tcs) =
     (case tool_call_step L s tc of
        (ev, s1, raised) \<Rightarrow>
          if raised then (ev, s1, True)
          else (case tool_calls_loop L s1 tcs of
                  (ev2, s2, raised2) \<Rightarrow> (ev @ ev2, s2, raised2)))"

text \<open>Lines 981-1067: \<open>if delta_tool_calls:\<close> is false for \<open>None\<close> and for an empty list.\<close>

definition tool_stage :: "pylib \<Rightarrow> state \<Rightarrow> tool_call_delta list option \<Rightarrow> event list \<times> state \<times> bool" where
  "tool_stage L s dtc =
     (case dtc of
        None \<Rightarrow> ([], s, False)
      | Some tcs \<Rightarrow>
          if tcs = [] then ([], s, False)
          else
            (case close_text_for_tool s of
               (ev0, s0) \<Rightarrow>
                 (case tool_calls_loop L s0 tcs of
                    (ev1, s1, raised) \<Rightarrow> (ev0 @ ev1, s1, raised))))"

text \<open>Lines 1086-1093: the stop reason of the streaming path.\<close>

definition stream_stop_reason :: "string \<Rightarrow> string" where
  "stream_stop_reason fr =
     (if fr = ''length'' then ''max_tokens''
      else if fr = ''tool_calls'' then ''tool_use''
      else if fr = ''stop'' then ''end_turn''
      else ''end_turn'')"

text \<open>Lines 1074-1076 and 1115-1117: \<open>range(1, last_tool_index + 1)\<close>.\<close>

definition close_tool_blocks :: "state \<Rightarrow> event list" where
  "close_tool_blocks s =
     (if tool_index s \<noteq> None then map ContentBlockStop [1 ..< last_tool_index s + 1] else [])"

text \<open>
  Lines 1070-1106. \<open>if finish_reason\<close> is false for \<open>None\<close> and for the empty
  string. The third component says that the generator returned.
\<close>

definition finish_stage :: "state \<Rightarrow> string option \<Rightarrow> event list \<times> state \<times> bool" where
  "finish_stage s fr =
     (case fr of
        None \<Rightarrow> ([], s, False)
      | Some r \<Rightarrow>
          if r \<noteq> [] \<and> \<not> has_sent_stop_reason s then
            (let s1 = s\<lparr>has_sent_stop_reason := True\<rparr>;
                 ev_text =
                   (if \<not> text_block_closed s1 then
                      (if accumulated_text s1 \<noteq> [] \<and> \<not> text_sent s1
                       then [ContentBlockDelta 0 (TextDelta (accumulated_text s1))] else [])
                      @ [ContentBlockStop 0]
                    else [])
             in (close_tool_blocks s1 @ ev_text @
                 [MessageDelta (stream_stop_reason r) None (output_tokens s1), MessageStop, Done],
                 s1, True))
          else ([], s, False))"

text \<open>
  Lines 929-1110, the body of \<open>async for chunk\<close> with its \<open>try\<close>: an exception
  raised while a chunk is processed is logged and the loop continues with the
  next chunk, keeping the events and the assignments made so far.
\<close>

definition process_chunk :: "pylib \<Rightarrow> state \<Rightarrow> chunk \<Rightarrow> event list \<times> state \<times> bool" where
  "process_chunk L s c =
     (let s1 = update_usage s (usage c)
      in (case choices c of
            NoChoices \<Rightarrow> ([], s1, False)
          | BadChoices \<Rightarrow> ([], s1, False)
          | Choices chs \<Rightarrow>
              (case chs of
                 [] \<Rightarrow> ([], s1, False)
               | ch # _ \<Rightarrow>
                   (case text_stage s1 (delta_content ch) of
                      (ev_t, s2, raised_t) \<Rightarrow>
                        if raised_t then (ev_t, s2, False)
                        else
                          (case tool_stage L s2 (delta_tool_calls ch) of
                             (ev_c, s3, raised) \<Rightarrow>
                               if raised then (ev_t @ ev_c, s3, False)
                               else
                                 (case finish_stage s3 (finish_reason ch) of
                                    (ev_f, s4, returned) \<Rightarrow>
                                      (ev_t @ ev_c @ ev_f, s4, returned)))))))"

fun process_chunks :: "pylib \<Rightarrow> state \<Rightarrow> chunk list \<Rightarrow> event list \<times> state \<times> bool" where
  "process_chunks L s [] = ([], s, False)"
| "process_chunks L s (c # cs) =
     (case process_chunk L s c of
        (ev, s1, returned) \<Rightarrow>
          if returned then (ev, s1, True)
          else (case process_chunks L s1 cs of
                  (ev2, s2, returned2) \<Rightarrow> (ev @ ev2, s2, returned2)))"

subsection \<open>The whole stream\<close>

text \<open>
  The downstream generator yields a finite list of chunks and then either is
  exhausted or raises an exception \<open>e\<close>; \<open>Raises m\<close> carries \<open>str(e)\<close>.
\<close>

datatype stream_end = Exhausted | Raises string

text \<open>Lines 1112-1131: the stream ended without a finish reason.\<close>

definition close_without_finish :: "state \<Rightarrow> event list" where
  "close_without_finish s =
     (if \<not> has_sent_stop_reason s then
        close_tool_blocks s @
        [ContentBlockStop 0,
         MessageDelta ''end_turn'' None (output_tokens s), MessageStop, Done]
      else [])"

text \<open>Lines 1137-1149: the message shown to the user for a fatal failure.\<close>

definition streaming_user_message :: "string \<Rightarrow> string" where
  "streaming_user_message m =
     (let error_str = lower m
      in if contains ''overloaded'' error_str then
           ''Anthropic API is currently overloaded. Please try again in a few minutes.''
         else if contains ''rate limit'' error_str \<or> contains ''rate_limit'' error_str
                 \<or> contains ''429'' error_str then
           ''Rate limit exceeded. Please try again in a few minutes.''
         else if contains ''timeout'' error_str \<or> contains ''timed out'' error_str then
           ''The request timed out. The API server may be experiencing high load. Please try again.''
         else if contains ''connectivity'' error_str \<or> contains ''connection'' error_str then
           ''Connection issue detected. Please check your internet connection and try again.''
         else if contains ''auth'' error_str \<or> contains ''authentication'' error_str
                 \<or> (contains ''key'' error_str \<and> contains ''invalid'' error_str) then
           ''Authentication error. Please check your API key configuration.''
         else ''Error in streaming: '' @ m)"

text \<open>Lines 1133-1161: the fatal failure path.\<close>

definition fatal_events :: "string \<Rightarrow> event list" where
  "fatal_events m =
     [MessageDelta ''error'' (Some (streaming_user_message m)) 0, MessageStop, Done]"

text \<open>Lines 908-914.\<close>

definition prelude :: "string \<Rightarrow> event list" where
  "prelude mdl = [MessageStart mdl, ContentBlockStart 0 (TextBlock []), Ping]"

definition handle_streaming :: "pylib \<Rightarrow> string \<Rightarrow> chunk list \<Rightarrow> stream_end \<Rightarrow> event list" where
  "handle_streaming L mdl cs e =
     (case process_chunks L init_state cs of
        (ev, s, returned) \<Rightarrow>
          if returned then prelude mdl @ ev
          else (case e of
                  Exhausted \<Rightarrow> prelude mdl @ ev @ close_without_finish s
                | Raises m \<Rightarrow> prelude mdl @ ev @ fatal_events m))"

section \<open>Notions used in the properties\<close>

text \<open>A string ends in a character that \<open>strip\<close> would remove.\<close>

definition has_trailing_whitespace :: "string \<Rightarrow> bool" where
  "has_trailing_whitespace s = (s \<noteq> [] \<and> is_space (last s))"

text \<open>
  The \<open>text\<close> entry of a dict, where \<open>parse_tool_result_content\<close> reads it,
  is a string or is absent: for an item of a list, and for a dict tagged \<open>text\<close>.
\<close>

definition text_entry_is_str :: "pyval \<Rightarrow> bool" where
  "text_entry_is_str v =
     (case v of
        PDict d \<Rightarrow> (case map_of d ''text'' of
                      None \<Rightarrow> True
                    | Some (PStr t) \<Rightarrow> True
                    | Some w \<Rightarrow> False)
      | _ \<Rightarrow> True)"

definition text_entries_are_str :: "pyval \<Rightarrow> bool" where
  "text_entries_are_str c =
     (case c of
        PList items \<Rightarrow> list_all text_entry_is_str items
      | PDict d \<Rightarrow> if map_of d ''type'' = Some (PStr ''text'') then text_entry_is_str c
                   else True
      | _ \<Rightarrow> True)"

text \<open>\<open>parse_tool_result_content\<close> applied to its own result.\<close>

definition parse_twice :: "pylib \<Rightarrow> pyval \<Rightarrow> py_error + pyval" where
  "parse_twice L x =
     (case parse_tool_result_content L x of
        Inl e \<Rightarrow> Inl e
      | Inr v \<Rightarrow> parse_tool_result_content L v)"




subsection \<open>Sample inputs\<close>

text \<open>
  A text of a thousand opening brackets, on which \<open>json.loads\<close> raises
  \<open>RecursionError\<close>.
\<close>

definition deep_brackets :: string where
  "deep_brackets = replicate 1000 (CHR ''['')"

text \<open>
  A library instance to run the definitions on the samples. The samples reach
  \<open>json.loads\<close> only on the texts \<open>{}\<close>, \<open>{bad json\<close>, which is not JSON, and
  \<open>deep_brackets\<close>, and do not reach \<open>json.dumps\<close> or \<open>str\<close>: no result below
  depends on what the instance returns elsewhere.
\<close>

definition sample_lib :: pylib where
  "sample_lib = \<lparr> json_loads = (\<lambda>s. if s = ''{}'' then Loaded (PDict [])
                                      else if s = deep_brackets then RecursionError
                                      else JSONDecodeError),
                   json_dumps = (\<lambda>v. ''{}''),
                   json_dumps_indent = (\<lambda>v. ''{}''),
                   py_str = (\<lambda>v. ''None'') \<rparr>"

definition sample_request :: "string \<Rightarrow> int \<Rightarrow> string option \<Rightarrow> message list \<Rightarrow> messages_request" where
  "sample_request m n effort msgs =
     \<lparr> model = m, max_tokens = n, messages = msgs, system = None, stop_sequences = None,
       stream = Some False, temperature = Some 1, top_p = None, top_k = None,
       tools = None, tool_choice = None, reasoning_effort = effort \<rparr>"

definition tool_result_message :: "string \<Rightarrow> pyval \<Rightarrow> message" where
  "tool_result_message tool_id c =
     \<lparr> role = ''user'', content = ContentBlocks [BlockToolResult tool_id c] \<rparr>"





subsection \<open>Reading an event sequence\<close>

text \<open>The indices of the \<open>content_block_start\<close> and of the \<open>content_block_stop\<close> events, in order.\<close>

fun start_indices :: "event list \<Rightarrow> nat list" where
  "start_indices [] = []"
| "start_indices (ContentBlockStart i b # es) = i # start_indices es"
| "start_indices (e # es) = start_indices es"

fun stop_indices :: "event list \<Rightarrow> nat list" where
  "stop_indices [] = []"
| "stop_indices (ContentBlockStop i # es) = i # stop_indices es"
| "stop_indices (e # es) = stop_indices es"

fun is_text_delta :: "event \<Rightarrow> bool" where
  "is_text_delta (ContentBlockDelta i (TextDelta t)) = True"
| "is_text_delta e = False"

definition no_text_delta :: "event list \<Rightarrow> bool" where
  "no_text_delta ev = list_all (\<lambda>x. \<not> is_text_delta x) ev"

text \<open>Neither \<open>message_stop\<close> nor the sentinel occurs.\<close>

definition terminal_free :: "event list \<Rightarrow> bool" where
  "terminal_free ev = (count_list ev MessageStop = 0 \<and> count_list ev Done = 0)"

text \<open>
  Two facts about the transcoder's variables: a tool call has started and the
  text block is marked closed; and the invariant of the states the loop
  reaches, the text block is marked closed once a tool call has started.
\<close>

definition tool_started :: "state \<Rightarrow> bool" where
  "tool_started s = (tool_index s \<noteq> None \<and> text_block_closed s)"

definition closed_if_tool :: "state \<Rightarrow> bool" where
  "closed_if_tool s = (tool_index s = None \<or> text_block_closed s)"

text \<open>
  The second invariant of the states the loop reaches: the text block is
  marked closed exactly when a tool call has started, and no tool block has
  been opened before that.
\<close>

definition text_closed_iff_tool :: "state \<Rightarrow> bool" where
  "text_closed_iff_tool s =
     ((tool_index s = None) = (\<not> text_block_closed s) \<and>
      (if tool_index s = None then last_tool_index s = 0 else True))"

text \<open>
  What a step adds: the tool blocks it opens are numbered from the last one
  on, and block 0 is closed when \<open>text_block_closed\<close> becomes true.
\<close>

definition adds_blocks :: "state \<Rightarrow> event list \<Rightarrow> state \<Rightarrow> bool" where
  "adds_blocks s ev s' =
     (start_indices ev = [Suc (last_tool_index s)..<Suc (last_tool_index s')] \<and>
      last_tool_index s \<le> last_tool_index s' \<and>
      stop_indices ev = (if text_block_closed s' \<and> \<not> text_block_closed s then [0] else []) \<and>
      (if text_block_closed s then text_block_closed s' else True))"

text \<open>A run that returns has closed every block it opened, once.\<close>

definition closes_blocks :: "state \<Rightarrow> event list \<Rightarrow> state \<Rightarrow> bool" where
  "closes_blocks s ev s' =
     (start_indices ev = [Suc (last_tool_index s)..<Suc (last_tool_index s')] \<and>
      last_tool_index s \<le> last_tool_index s' \<and>
      stop_indices ev =
        (if text_block_closed s then [1..<Suc (last_tool_index s')]
         else [0..<Suc (last_tool_index s')]))"

subsection \<open>Sample chunks\<close>

definition text_chunk :: "string \<Rightarrow> chunk" where
  "text_chunk t = \<lparr> usage = None,
     choices = Choices [\<lparr> delta_content = Text t, delta_tool_calls = None,
                          finish_reason = None \<rparr>] \<rparr>"

definition tool_chunk :: "tool_call_delta \<Rightarrow> chunk" where
  "tool_chunk tc = \<lparr> usage = None,
     choices = Choices [\<lparr> delta_content = NoText, delta_tool_calls = Some [tc],
                          finish_reason = None \<rparr>] \<rparr>"

definition finish_chunk :: "string \<Rightarrow> chunk" where
  "finish_chunk r = \<lparr> usage = None,
     choices = Choices [\<lparr> delta_content = NoText, delta_tool_calls = None,
                          finish_reason = Some r \<rparr>] \<rparr>"

definition malformed_chunk :: chunk where
  "malformed_chunk = \<lparr> usage = None, choices = BadChoices \<rparr>"

definition not_text_chunk :: "string \<Rightarrow> chunk" where
  "not_text_chunk r = \<lparr> usage = None,
     choices = Choices [\<lparr> delta_content = NotText, delta_tool_calls = None,
                          finish_reason = Some r \<rparr>] \<rparr>"

definition deep_delta :: tool_call_delta where
  "deep_delta = \<lparr> tc_index = Some 0, tc_id = Val ''t1'',
     tc_function = Some \<lparr> fn_name = Val ''search'', fn_arguments = Val deep_brackets \<rparr> \<rparr>"

definition search_call :: tool_call_delta where
  "search_call = \<lparr> tc_index = Some 0, tc_id = Val ''t1'',
     tc_function = Some \<lparr> fn_name = Val ''search'', fn_arguments = Val ''{}'' \<rparr> \<rparr>"

section \<open>Properties of the content normalizer\<close>

lemma rstrip_no_trailing: "\<not> has_trailing_whitespace (rstrip s)"
proof (cases "dropWhile is_space (rev s) = []")
  case True
  then show ?thesis by (simp add: has_trailing_whitespace_def rstrip_def)
next
  case False
  then have "\<not> is_space (hd (dropWhile is_space (rev s)))" by (rule hd_dropWhile)
  moreover have "last (rev (dropWhile is_space (rev s))) = hd (dropWhile is_space (rev s))"
    using False by (simp add: last_rev)
  ultimately show ?thesis by (simp add: has_trailing_whitespace_def rstrip_def)
qed

lemma strip_no_trailing: "\<not> has_trailing_whitespace (strip s)"
  by (simp add: strip_def rstrip_no_trailing)

lemma text_line_ok:
  "text_entry_is_str (PDict d) \<Longrightarrow> \<exists>l. text_line d = Inr l"
  by (auto simp: text_entry_is_str_def text_line_def dict_get_def split: option.splits pyval.splits)

lemma item_line_ok: "text_entry_is_str item \<Longrightarrow> \<exists>l. item_line L item = Inr l"
  by (cases item) (auto simp: item_line_def dest: text_line_ok)

lemma items_text_ok:
  "list_all text_entry_is_str items \<Longrightarrow> \<exists>r. items_text L acc items = Inr r"
proof (induction items arbitrary: acc)
  case Nil
  then show ?case by simp
next
  case (Cons item items)
  then obtain l where "item_line L item = Inr l" using item_line_ok by fastforce
  with Cons show ?case by simp
qed

lemma no_content_provided_trimmed: "\<not> has_trailing_whitespace ''No content provided''"
  by (simp add: has_trailing_whitespace_def is_space_def)

text \<open>
  C4, as amended. The claim: for every input, \<open>parse_tool_result_content\<close>
  returns a non-null string without raising, and the string has no trailing
  whitespace. What holds: when the \<open>text\<close> entries that the function reads are
  strings (or absent), the result is a string for every input and library; it
  has no trailing whitespace when the input is null or a list; and a string
  input is returned as it is, trailing whitespace included.
\<close>

theorem parse_tool_result_content_string:
  assumes ok: "text_entries_are_str x"
  shows "\<exists>s. parse_tool_result_content L x = Inr (PStr s) \<and>
             (x = PNone \<or> (\<exists>items. x = PList items) \<longrightarrow> \<not> has_trailing_whitespace s) \<and>
             (\<forall>t. x = PStr t \<longrightarrow> s = t)"
proof (cases x)
  case PNone
  then show ?thesis
    by (simp add: parse_tool_result_content_def no_content_provided_trimmed)
next
  case (PList items)
  with ok have "list_all text_entry_is_str items" by (simp add: text_entries_are_str_def)
  then obtain r where "items_text L [] items = Inr r" using items_text_ok by blast
  with PList show ?thesis
    by (simp add: parse_tool_result_content_def strip_no_trailing)
next
  case (PDict d)
  show ?thesis
  proof (cases "map_of d ''type'' = Some (PStr ''text'')")
    case True
    with ok PDict have "text_entry_is_str (PDict d)" by (simp add: text_entries_are_str_def)
    then obtain t where "dict_get d ''text'' (PStr []) = PStr t"
      by (auto simp: text_entry_is_str_def dict_get_def split: option.splits pyval.splits)
    with PDict True show ?thesis by (simp add: parse_tool_result_content_def)
  next
    case False
    with PDict show ?thesis by (simp add: parse_tool_result_content_def)
  qed
qed (simp_all add: parse_tool_result_content_def)

theorem parse_tool_result_content_string_witness:
  "text_entries_are_str (PList [PStr ''a '', PDict [(''type'', PStr ''text''), (''text'', PStr '' b '')]]) \<and>
   parse_tool_result_content sample_lib
     (PList [PStr ''a '', PDict [(''type'', PStr ''text''), (''text'', PStr '' b '')]]) =
     Inr (PStr ''a \<newline> b'') \<and>
   \<not> has_trailing_whitespace ''a \<newline> b''"
proof -
  have ok: "text_entries_are_str
      (PList [PStr ''a '', PDict [(''type'', PStr ''text''), (''text'', PStr '' b '')]])"
    by (simp add: text_entries_are_str_def text_entry_is_str_def)
  have ev: "parse_tool_result_content sample_lib
     (PList [PStr ''a '', PDict [(''type'', PStr ''text''), (''text'', PStr '' b '')]]) =
     Inr (PStr ''a \<newline> b'')"
    by (simp add: parse_tool_result_content_def item_line_def text_line_def dict_get_def
        strip_def lstrip_def rstrip_def is_space_def)
  from parse_tool_result_content_string [OF ok, of sample_lib] ok ev show ?thesis by auto
qed

text \<open>
  C4, the claim as stated fails: a string input is returned unchanged, so the
  result for \<open>hi\<close> followed by a space ends in that space.
\<close>

theorem string_keeps_trailing_whitespace:
  "parse_tool_result_content sample_lib (PStr ''hi '') = Inr (PStr ''hi '') \<and>
   has_trailing_whitespace ''hi ''"
  by (simp add: parse_tool_result_content_def has_trailing_whitespace_def is_space_def)

text \<open>
  A string is a fixed point, and whenever the function returns a string a
  second application returns the same string.
\<close>

lemma parse_string_fixed_point:
  "parse_tool_result_content L (PStr s) = Inr (PStr s)"
  by (simp add: parse_tool_result_content_def)

lemma parse_twice_string_result:
  "parse_tool_result_content L x = Inr (PStr s) \<Longrightarrow> parse_twice L x = Inr (PStr s)"
  by (simp add: parse_twice_def parse_string_fixed_point)

text \<open>
  C9. The claim: \<open>parse_tool_result_content\<close> is idempotent on every input
  value. The code breaks it on a dict tagged \<open>text\<close> whose \<open>text\<close> entry is null:
  the branch for such a dict returns the entry as it is, here \<open>None\<close>, and the
  function maps \<open>None\<close> to the text \<open>No content provided\<close>.
\<close>

theorem parse_not_idempotent_on_null_text:
  "parse_tool_result_content L (PDict [(''type'', PStr ''text''), (''text'', PNone)]) = Inr PNone \<and>
   parse_twice L (PDict [(''type'', PStr ''text''), (''text'', PNone)]) =
     Inr (PStr ''No content provided'')"
  by (simp add: parse_twice_def parse_tool_result_content_def dict_get_def)

section \<open>Properties of the request mapper\<close>





text \<open>The fragments of a text block and of a tool result whose content is a string.\<close>

lemma tool_result_fragment_text:
  "tool_result_fragment L (BlockText t) = Inr (t @ ''\<newline>'')"
  by (simp add: tool_result_fragment_def)

lemma tool_result_fragment_str:
  "tool_result_fragment L (BlockToolResult i (PStr s)) =
     Inr (''Tool result for '' @ i @ '':\<newline>'' @ s @ ''\<newline>'')"
  by (simp add: tool_result_fragment_def tool_result_text_def)

lemmas request_defs =
  convert_anthropic_to_litellm_def convert_message_def tool_result_fragment_def
  tool_result_text_def system_messages_def capped_max_tokens_def reasoning_effort_param_def
  truthy_str_def clean_model_name_def sample_request_def tool_result_message_def
  strip_def lstrip_def rstrip_def is_space_def



text \<open>
  C7. When the model of the request starts with \<open>openai/\<close>, the downstream
  \<open>max_tokens\<close> is the minimum of the requested value and 16384: a value of at
  most 16384 passes unchanged and a larger one becomes 16384.
\<close>

theorem max_tokens_capped:
  assumes o: "startswith (model req) ''openai/''"
    and r: "convert_anthropic_to_litellm L flag req = Inr d"
  shows "out_max_tokens d = min (max_tokens req) 16384 \<and>
         (max_tokens req \<le> 16384 \<longrightarrow> out_max_tokens d = max_tokens req) \<and>
         (16384 < max_tokens req \<longrightarrow> out_max_tokens d = 16384)"
proof -
  from r have "out_max_tokens d = capped_max_tokens flag req"
    by (auto simp: convert_anthropic_to_litellm_def split: sum.splits)
  with o show ?thesis by (simp add: capped_max_tokens_def)
qed

theorem max_tokens_capped_witness:
  "startswith ''openai/gpt-4o'' ''openai/'' \<and>
   (case convert_anthropic_to_litellm sample_lib False (sample_request ''openai/gpt-4o'' 100000 None [])
    of Inl e \<Rightarrow> None | Inr d \<Rightarrow> Some (out_max_tokens d)) = Some 16384 \<and>
   (case convert_anthropic_to_litellm sample_lib False (sample_request ''openai/gpt-4o'' 4096 None [])
    of Inl e \<Rightarrow> None | Inr d \<Rightarrow> Some (out_max_tokens d)) = Some 4096"
proof -
  let ?r1 = "sample_request ''openai/gpt-4o'' 100000 None []"
  let ?r2 = "sample_request ''openai/gpt-4o'' 4096 None []"
  have o1: "startswith (model ?r1) ''openai/''" by (simp add: sample_request_def)
  have o2: "startswith (model ?r2) ''openai/''" by (simp add: sample_request_def)
  obtain d1 where d1: "convert_anthropic_to_litellm sample_lib False ?r1 = Inr d1"
    by (simp add: convert_anthropic_to_litellm_def sample_request_def)
  obtain d2 where d2: "convert_anthropic_to_litellm sample_lib False ?r2 = Inr d2"
    by (simp add: convert_anthropic_to_litellm_def sample_request_def)
  have "out_max_tokens d1 = 16384"
    using max_tokens_capped [OF o1 d1] by (simp add: sample_request_def)
  moreover have "out_max_tokens d2 = 4096"
    using max_tokens_capped [OF o2 d2] by (simp add: sample_request_def)
  ultimately show ?thesis using d1 d2 by simp
qed

text \<open>
  C8, as amended. The claim: a \<open>reasoning_effort\<close> supplied by the caller is
  copied; otherwise \<open>high\<close> is set exactly when the model name without its
  provider prefix contains \<open>o3-\<close> or \<open>o1\<close>; otherwise the field is absent. What
  holds: a supplied value that is not the empty string is copied; when none is
  supplied or the empty string is, the field is \<open>high\<close> exactly when the name
  contains \<open>o3-\<close> or \<open>o1\<close>, and absent otherwise.
\<close>

theorem reasoning_effort_forwarded:
  assumes r: "convert_anthropic_to_litellm L flag req = Inr d"
  shows "(\<forall>v. reasoning_effort req = Some v \<and> v \<noteq> [] \<longrightarrow> out_reasoning_effort d = Some v) \<and>
         (reasoning_effort req = None \<or> reasoning_effort req = Some [] \<longrightarrow>
            out_reasoning_effort d =
              (if contains ''o3-'' (clean_model_name (model req)) \<or>
                  contains ''o1'' (clean_model_name (model req))
               then Some ''high'' else None))"
proof -
  from r have "out_reasoning_effort d = reasoning_effort_param req"
    by (auto simp: convert_anthropic_to_litellm_def split: sum.splits)
  then show ?thesis
    by (auto simp: reasoning_effort_param_def truthy_str_def Let_def)
qed

theorem reasoning_effort_forwarded_witness:
  "(case convert_anthropic_to_litellm sample_lib True (sample_request ''openai/gpt-4o'' 100 (Some ''low'') [])
    of Inl e \<Rightarrow> None | Inr d \<Rightarrow> Some (out_reasoning_effort d)) = Some (Some ''low'') \<and>
   (case convert_anthropic_to_litellm sample_lib True (sample_request ''openai/o3-mini'' 100 None [])
    of Inl e \<Rightarrow> None | Inr d \<Rightarrow> Some (out_reasoning_effort d)) = Some (Some ''high'') \<and>
   (case convert_anthropic_to_litellm sample_lib True (sample_request ''openai/gpt-4o'' 100 None [])
    of Inl e \<Rightarrow> None | Inr d \<Rightarrow> Some (out_reasoning_effort d)) = Some None"
proof -
  let ?r1 = "sample_request ''openai/gpt-4o'' 100 (Some ''low'') []"
  let ?r2 = "sample_request ''openai/o3-mini'' 100 None []"
  let ?r3 = "sample_request ''openai/gpt-4o'' 100 None []"
  obtain d1 where d1: "convert_anthropic_to_litellm sample_lib True ?r1 = Inr d1"
    by (simp add: convert_anthropic_to_litellm_def sample_request_def)
  obtain d2 where d2: "convert_anthropic_to_litellm sample_lib True ?r2 = Inr d2"
    by (simp add: convert_anthropic_to_litellm_def sample_request_def)
  obtain d3 where d3: "convert_anthropic_to_litellm sample_lib True ?r3 = Inr d3"
    by (simp add: convert_anthropic_to_litellm_def sample_request_def)
  have "out_reasoning_effort d1 = Some ''low''"
    using reasoning_effort_forwarded [OF d1] by (simp add: sample_request_def)
  moreover have "out_reasoning_effort d2 = Some ''high''"
    using reasoning_effort_forwarded [OF d2] by (simp add: sample_request_def clean_model_name_def)
  moreover have "out_reasoning_effort d3 = None"
    using reasoning_effort_forwarded [OF d3] by (simp add: sample_request_def clean_model_name_def)
  ultimately show ?thesis using d1 d2 d3 by simp
qed

text \<open>
  C8, the claim as stated fails: the caller supplies the empty string for the
  model \<open>openai/o1\<close>, and the downstream request carries \<open>high\<close>, not the
  supplied value.
\<close>

theorem empty_reasoning_effort_not_forwarded:
  "reasoning_effort (sample_request ''openai/o1'' 100 (Some []) []) = Some [] \<and>
   (case convert_anthropic_to_litellm sample_lib True (sample_request ''openai/o1'' 100 (Some []) [])
    of Inl e \<Rightarrow> None | Inr d \<Rightarrow> Some (out_reasoning_effort d)) = Some (Some ''high'')"
  by (simp add: request_defs)

section \<open>Properties of the response mapper\<close>









subsection \<open>Unparseable arguments\<close>



text \<open>
  An argument string on which \<open>json.loads\<close> raises another exception makes
  the mapper raise, for a model with tool blocks and for one without.
\<close>

lemma recursion_error_block:
  assumes f: "call_function tc = Val f" and a: "fc_arguments f = Val (PStr a)"
    and deep: "json_loads L a = RecursionError"
  shows "tool_use_block L tc = Inl (HTTPException 500)"
    and "tool_text_entry L tc = Inl (HTTPException 500)"
  using f a deep
  by (simp_all add: tool_use_block_def tool_text_entry_def function_of_def call_arguments_def
      parse_arguments_def arguments_str_def)

lemma tool_use_blocks_raise:
  "tc \<in> set tcs \<Longrightarrow> tool_use_block L tc = Inl e \<Longrightarrow> \<exists>e'. tool_use_blocks L tcs = Inl e'"
  by (induction tcs) (auto split: sum.splits)

lemma tool_text_raise:
  "tc \<in> set tcs \<Longrightarrow> tool_text_entry L tc = Inl e \<Longrightarrow> \<exists>e'. tool_text L acc tcs = Inl e'"
  by (induction tcs arbitrary: acc) (auto split: sum.splits)

lemma recursion_error_raises:
  assumes tcs: "message_tool_calls m = tcs" and msg: "first_message r = Inr m"
    and tc: "tc \<in> set tcs"
    and f: "call_function tc = Val f" and a: "fc_arguments f = Val (PStr a)"
    and deep: "json_loads L a = RecursionError"
  shows "\<exists>e. convert_litellm_to_anthropic L r req = Inl e"
proof -
  have ne: "tcs \<noteq> []" using tc by auto
  note b = recursion_error_block [OF f a deep]
  from tool_use_blocks_raise [OF tc b(1)] obtain e1 where e1: "tool_use_blocks L tcs = Inl e1"
    by blast
  from tool_text_raise [OF tc b(2)]
  obtain e2 where e2: "tool_text L ''\<newline>\<newline>Tool usage:\<newline>'' tcs = Inl e2"
    by blast
  have "\<exists>e. response_blocks L c (message_text m) tcs = Inl e" for c
    using ne e1 e2 by (cases c) (simp_all add: response_blocks_def)
  then obtain e3 where
    "response_blocks L (startswith (clean_model_name (model req)) ''claude-'')
       (message_text m) (message_tool_calls m) = Inl e3"
    using tcs by blast
  then show ?thesis
    using msg
    by (cases "first_finish_reason r") (simp_all add: convert_litellm_to_anthropic_def Let_def)
qed




section \<open>Properties of the streaming transcoder\<close>

subsection \<open>The shape of a run\<close>

text \<open>
  A chunk is skipped (no choice, or an exception before the first event), or
  its tool stage raises, or it runs to the finish stage.
\<close>

lemma process_chunk_cases [consumes 1, case_names skipped tool_raised finished]:
  assumes a: "process_chunk L s c = (ev, s', r)"
  obtains
    (skipped) "ev = []" "s' = update_usage s (usage c)" "\<not> r"
      "\<forall>ch chs. choices c = Choices (ch # chs) \<longrightarrow> delta_content ch = NotText"
  | (tool_raised) ch chs e1 s1 e2 where
      "choices c = Choices (ch # chs)"
      "text_stage (update_usage s (usage c)) (delta_content ch) = (e1, s1, False)"
      "tool_stage L s1 (delta_tool_calls ch) = (e2, s', True)"
      "ev = e1 @ e2" "\<not> r"
  | (finished) ch chs e1 s1 e2 s2 e3 where
      "choices c = Choices (ch # chs)"
      "text_stage (update_usage s (usage c)) (delta_content ch) = (e1, s1, False)"
      "tool_stage L s1 (delta_tool_calls ch) = (e2, s2, False)"
      "finish_stage s2 (finish_reason ch) = (e3, s', r)"
      "ev = e1 @ e2 @ e3"
proof (cases "\<exists>ch chs. choices c = Choices (ch # chs)")
  case False
  with a have "ev = []" "s' = update_usage s (usage c)" "\<not> r"
    by (auto simp: process_chunk_def Let_def split: choices_field.splits list.splits)
  with False show ?thesis by (intro skipped) simp_all
next
  case True
  then obtain ch chs where ch: "choices c = Choices (ch # chs)" by blast
  obtain e1 s1 r1 where t: "text_stage (update_usage s (usage c)) (delta_content ch) = (e1, s1, r1)"
    by (cases "text_stage (update_usage s (usage c)) (delta_content ch)") auto
  show ?thesis
  proof (cases r1)
    case True
    with t have "e1 = []" "s1 = update_usage s (usage c)" "delta_content ch = NotText"
      by (auto simp: text_stage_def Let_def split: delta_text.splits if_splits)
    with a ch t True have "ev = []" "s' = update_usage s (usage c)" "\<not> r"
      "\<forall>ch chs. choices c = Choices (ch # chs) \<longrightarrow> delta_content ch = NotText"
      by (simp_all add: process_chunk_def Let_def)
    then show ?thesis by (rule skipped)
  next
    case r1: False
    obtain e2 s2 r2 where u: "tool_stage L s1 (delta_tool_calls ch) = (e2, s2, r2)"
      by (cases "tool_stage L s1 (delta_tool_calls ch)") auto
    show ?thesis
    proof (cases r2)
      case True
      with a ch t u r1 have "ev = e1 @ e2" "s' = s2" "\<not> r"
        by (simp_all add: process_chunk_def Let_def)
      with ch t u r1 True show ?thesis by (intro tool_raised [of ch chs e1 s1 e2]) simp_all
    next
      case r2: False
      obtain e3 s3 r3 where f: "finish_stage s2 (finish_reason ch) = (e3, s3, r3)"
        by (cases "finish_stage s2 (finish_reason ch)") auto
      with a ch t u r1 r2 have "ev = e1 @ e2 @ e3" "s' = s3" "r = r3"
        by (simp_all add: process_chunk_def Let_def)
      with ch t u f r1 r2 show ?thesis
        by (intro finished [of ch chs e1 s1 e2 s2 e3]) simp_all
    qed
  qed
qed

lemma process_chunks_Cons_cases [consumes 1, case_names returned continued]:
  assumes a: "process_chunks L s (c # cs) = (ev, s', r)"
  obtains
    (returned) "process_chunk L s c = (ev, s', True)" "r"
  | (continued) e1 s1 e2 where
      "process_chunk L s c = (e1, s1, False)" "process_chunks L s1 cs = (e2, s', r)" "ev = e1 @ e2"
proof -
  obtain e1 s1 r1 where st: "process_chunk L s c = (e1, s1, r1)"
    by (cases "process_chunk L s c") auto
  show ?thesis
  proof (cases r1)
    case True
    with a st have "ev = e1" "s' = s1" "r" by simp_all
    with st True show ?thesis by (intro returned) simp_all
  next
    case False
    obtain e2 s2 r2 where lp: "process_chunks L s1 cs = (e2, s2, r2)"
      by (cases "process_chunks L s1 cs") auto
    with a st False have "ev = e1 @ e2" "s' = s2" "r = r2" by simp_all
    with st lp False show ?thesis by (intro continued [of e1 s1 e2]) simp_all
  qed
qed

lemma tool_calls_loop_Cons_cases [consumes 1, case_names raised continued]:
  assumes a: "tool_calls_loop L s (tc # tcs) = (ev, s', r)"
  obtains
    (raised) "tool_call_step L s tc = (ev, s', True)" "r"
  | (continued) e1 s1 e2 where
      "tool_call_step L s tc = (e1, s1, False)" "tool_calls_loop L s1 tcs = (e2, s', r)" "ev = e1 @ e2"
proof -
  obtain e1 s1 r1 where st: "tool_call_step L s tc = (e1, s1, r1)"
    by (cases "tool_call_step L s tc") auto
  show ?thesis
  proof (cases r1)
    case True
    with a st have "ev = e1" "s' = s1" "r" by simp_all
    with st True show ?thesis by (intro raised) simp_all
  next
    case False
    obtain e2 s2 r2 where lp: "tool_calls_loop L s1 tcs = (e2, s2, r2)"
      by (cases "tool_calls_loop L s1 tcs") auto
    with a st False have "ev = e1 @ e2" "s' = s2" "r = r2" by simp_all
    with st lp False show ?thesis by (intro continued [of e1 s1 e2]) simp_all
  qed
qed

lemma process_chunks_append:
  "process_chunks L s (cs1 @ cs2) =
     (case process_chunks L s cs1 of
        (ev, s1, r) \<Rightarrow>
          if r then (ev, s1, True)
          else (case process_chunks L s1 cs2 of (ev2, s2, r2) \<Rightarrow> (ev @ ev2, s2, r2)))"
  by (induction cs1 arbitrary: s) (auto split: prod.splits)

subsection \<open>The terminal events\<close>

lemma terminal_free_simps [simp]:
  "terminal_free []"
  "terminal_free (a @ b) = (terminal_free a \<and> terminal_free b)"
  "terminal_free (x # a) = (x \<noteq> MessageStop \<and> x \<noteq> Done \<and> terminal_free a)"
  by (auto simp: terminal_free_def)

lemma terminal_free_map_stop [simp]: "terminal_free (map ContentBlockStop ns)"
  by (induction ns) simp_all

lemma update_usage_fields [simp]:
  "has_sent_stop_reason (update_usage s u) = has_sent_stop_reason s"
  "tool_index (update_usage s u) = tool_index s"
  "text_block_closed (update_usage s u) = text_block_closed s"
  "accumulated_text (update_usage s u) = accumulated_text s"
  "last_tool_index (update_usage s u) = last_tool_index s"
  by (auto simp: update_usage_def Let_def split: option.splits)

lemma text_stage_terminal:
  "text_stage s dc = (ev, s', r) \<Longrightarrow>
     terminal_free ev \<and> has_sent_stop_reason s' = has_sent_stop_reason s"
  by (auto simp: text_stage_def Let_def split: delta_text.splits if_splits)

lemma close_text_for_tool_terminal:
  "close_text_for_tool s = (ev, s') \<Longrightarrow>
     terminal_free ev \<and> has_sent_stop_reason s' = has_sent_stop_reason s"
  by (auto simp: close_text_for_tool_def split: if_splits)

lemma tool_call_step_terminal:
  "tool_call_step L s tc = (ev, s', r) \<Longrightarrow>
     terminal_free ev \<and> has_sent_stop_reason s' = has_sent_stop_reason s"
  by (auto simp: tool_call_step_def Let_def split: loads_result.splits option.splits if_splits prod.splits)

lemma tool_calls_loop_terminal:
  "tool_calls_loop L s tcs = (ev, s', r) \<Longrightarrow>
     terminal_free ev \<and> has_sent_stop_reason s' = has_sent_stop_reason s"
proof (induction tcs arbitrary: s ev s' r)
  case Nil
  then show ?case by simp
next
  case (Cons tc tcs)
  from Cons.prems show ?case
  proof (cases rule: tool_calls_loop_Cons_cases)
    case raised
    then show ?thesis using tool_call_step_terminal by blast
  next
    case (continued e1 s1 e2)
    with tool_call_step_terminal [OF continued(1)] Cons.IH [OF continued(2)]
    show ?thesis by simp
  qed
qed

lemma tool_stage_terminal:
  "tool_stage L s dtc = (ev, s', r) \<Longrightarrow>
     terminal_free ev \<and> has_sent_stop_reason s' = has_sent_stop_reason s"
  by (auto simp: tool_stage_def split: option.splits if_splits prod.splits
           dest: close_text_for_tool_terminal tool_calls_loop_terminal)

lemma close_tool_blocks_terminal_free [simp]: "terminal_free (close_tool_blocks s)"
  by (simp add: close_tool_blocks_def)

lemma finish_stage_not_returned:
  "finish_stage s fr = (ev, s', r) \<Longrightarrow> \<not> r \<Longrightarrow> ev = [] \<and> s' = s"
  by (auto simp: finish_stage_def Let_def split: option.splits if_splits)

lemma finish_stage_returned:
  "finish_stage s fr = (ev, s', r) \<Longrightarrow> r \<Longrightarrow>
     \<exists>pre. ev = pre @ [MessageStop, Done] \<and> terminal_free pre"
  by (auto simp: finish_stage_def Let_def split: option.splits if_splits)

lemma process_chunk_not_returned:
  assumes a: "process_chunk L s c = (ev, s', r)" and nr: "\<not> r"
  shows "terminal_free ev \<and> has_sent_stop_reason s' = has_sent_stop_reason s"
  using a
proof (cases rule: process_chunk_cases)
  case skipped
  then show ?thesis by simp
next
  case (tool_raised ch chs e1 s1 e2)
  with text_stage_terminal [OF tool_raised(2)] tool_stage_terminal [OF tool_raised(3)]
  show ?thesis by simp
next
  case (finished ch chs e1 s1 e2 s2 e3)
  with text_stage_terminal [OF finished(2)] tool_stage_terminal [OF finished(3)]
    finish_stage_not_returned [OF finished(4) nr]
  show ?thesis by simp
qed

lemma process_chunk_returned:
  assumes a: "process_chunk L s c = (ev, s', r)" and ret: "r"
  shows "\<exists>pre. ev = pre @ [MessageStop, Done] \<and> terminal_free pre"
  using a
proof (cases rule: process_chunk_cases)
  case skipped
  with ret show ?thesis by simp
next
  case (tool_raised ch chs e1 s1 e2)
  with ret show ?thesis by simp
next
  case (finished ch chs e1 s1 e2 s2 e3)
  from finish_stage_returned [OF finished(4) ret]
  obtain pre where pre: "e3 = pre @ [MessageStop, Done]" "terminal_free pre" by blast
  have "ev = (e1 @ e2 @ pre) @ [MessageStop, Done] \<and> terminal_free (e1 @ e2 @ pre)"
    using finished(5) pre text_stage_terminal [OF finished(2)] tool_stage_terminal [OF finished(3)]
    by simp
  then show ?thesis by blast
qed

lemma process_chunks_not_returned:
  "process_chunks L s cs = (ev, s', r) \<Longrightarrow> \<not> r \<Longrightarrow>
     terminal_free ev \<and> has_sent_stop_reason s' = has_sent_stop_reason s"
proof (induction cs arbitrary: s ev s' r)
  case Nil
  then show ?case by simp
next
  case (Cons c cs)
  from Cons.prems(1) show ?case
  proof (cases rule: process_chunks_Cons_cases)
    case returned
    with Cons.prems(2) show ?thesis by simp
  next
    case (continued e1 s1 e2)
    have "\<not> False" by simp
    from process_chunk_not_returned [OF continued(1) this]
      Cons.IH [OF continued(2) Cons.prems(2)] continued(3)
    show ?thesis by simp
  qed
qed

lemma process_chunks_returned:
  "process_chunks L s cs = (ev, s', r) \<Longrightarrow> r \<Longrightarrow>
     \<exists>pre. ev = pre @ [MessageStop, Done] \<and> terminal_free pre"
proof (induction cs arbitrary: s ev s' r)
  case Nil
  then show ?case by simp
next
  case (Cons c cs)
  from Cons.prems(1) show ?case
  proof (cases rule: process_chunks_Cons_cases)
    case returned
    have "True" by simp
    from process_chunk_returned [OF returned(1) this] show ?thesis .
  next
    case (continued e1 s1 e2)
    from Cons.IH [OF continued(2) Cons.prems(2)]
    obtain pre where pre: "e2 = pre @ [MessageStop, Done]" "terminal_free pre" by blast
    have "\<not> False" by simp
    from process_chunk_not_returned [OF continued(1) this] have "terminal_free e1" by simp
    then have "ev = (e1 @ pre) @ [MessageStop, Done] \<and> terminal_free (e1 @ pre)"
      using continued(3) pre by simp
    then show ?thesis by blast
  qed
qed

lemma terminal_count:
  "terminal_free pre \<Longrightarrow>
     count_list (pre @ [MessageStop, Done]) MessageStop = 1 \<and>
     count_list (pre @ [MessageStop, Done]) Done = 1 \<and>
     last (pre @ [MessageStop, Done]) = Done"
  by (simp add: terminal_free_def)

subsection \<open>After the first tool call\<close>

lemma no_text_delta_simps [simp]:
  "no_text_delta []"
  "no_text_delta (a @ b) = (no_text_delta a \<and> no_text_delta b)"
  "no_text_delta (x # a) = (\<not> is_text_delta x \<and> no_text_delta a)"
  by (auto simp: no_text_delta_def)

lemma no_text_delta_map_stop [simp]: "no_text_delta (map ContentBlockStop ns)"
  by (induction ns) simp_all

lemma closed_if_tool_update_usage [simp]:
  "closed_if_tool (update_usage s u) = closed_if_tool s"
  "tool_started (update_usage s u) = tool_started s"
  by (simp_all add: closed_if_tool_def tool_started_def)

text \<open>The invariant \<open>closed_if_tool\<close> of the reachable states.\<close>

lemma text_stage_closed_if_tool:
  "text_stage s dc = (ev, s', r) \<Longrightarrow> closed_if_tool s \<Longrightarrow> closed_if_tool s'"
  by (auto simp: text_stage_def closed_if_tool_def Let_def split: delta_text.splits if_splits)

lemma close_text_for_tool_closed:
  "close_text_for_tool s = (ev, s') \<Longrightarrow> closed_if_tool s \<Longrightarrow> text_block_closed s'"
  by (auto simp: close_text_for_tool_def closed_if_tool_def split: if_splits)

lemma tool_call_step_closed:
  "tool_call_step L s tc = (ev, s', r) \<Longrightarrow> text_block_closed s' = text_block_closed s"
  by (auto simp: tool_call_step_def Let_def split: loads_result.splits option.splits if_splits prod.splits)

lemma tool_calls_loop_closed:
  "tool_calls_loop L s tcs = (ev, s', r) \<Longrightarrow> text_block_closed s' = text_block_closed s"
proof (induction tcs arbitrary: s ev s' r)
  case Nil
  then show ?case by simp
next
  case (Cons tc tcs)
  from Cons.prems show ?case
  proof (cases rule: tool_calls_loop_Cons_cases)
    case raised
    then show ?thesis using tool_call_step_closed by blast
  next
    case (continued e1 s1 e2)
    with tool_call_step_closed [OF continued(1)] Cons.IH [OF continued(2)]
    show ?thesis by simp
  qed
qed

lemma tool_stage_closed_if_tool:
  "tool_stage L s dtc = (ev, s', r) \<Longrightarrow> closed_if_tool s \<Longrightarrow> closed_if_tool s'"
  by (auto simp: tool_stage_def closed_if_tool_def split: option.splits if_splits prod.splits
           dest: close_text_for_tool_closed [unfolded closed_if_tool_def] tool_calls_loop_closed)

lemma finish_stage_closed_if_tool:
  "finish_stage s fr = (ev, s', r) \<Longrightarrow> closed_if_tool s \<Longrightarrow> closed_if_tool s'"
  by (auto simp: finish_stage_def closed_if_tool_def Let_def split: option.splits if_splits)

lemma process_chunk_closed_if_tool:
  assumes a: "process_chunk L s c = (ev, s', r)" and i: "closed_if_tool s"
  shows "closed_if_tool s'"
  using a
proof (cases rule: process_chunk_cases)
  case skipped
  with i show ?thesis by simp
next
  case (tool_raised ch chs e1 s1 e2)
  have "closed_if_tool s1" using text_stage_closed_if_tool [OF tool_raised(2)] i by simp
  then show ?thesis using tool_stage_closed_if_tool [OF tool_raised(3)] by simp
next
  case (finished ch chs e1 s1 e2 s2 e3)
  have "closed_if_tool s1" using text_stage_closed_if_tool [OF finished(2)] i by simp
  then have "closed_if_tool s2" using tool_stage_closed_if_tool [OF finished(3)] by simp
  then show ?thesis using finish_stage_closed_if_tool [OF finished(4)] by simp
qed

lemma process_chunks_closed_if_tool:
  "process_chunks L s cs = (ev, s', r) \<Longrightarrow> closed_if_tool s \<Longrightarrow> closed_if_tool s'"
proof (induction cs arbitrary: s ev s' r)
  case Nil
  then show ?case by simp
next
  case (Cons c cs)
  from Cons.prems(1) show ?case
  proof (cases rule: process_chunks_Cons_cases)
    case returned
    then show ?thesis using process_chunk_closed_if_tool Cons.prems(2) by blast
  next
    case (continued e1 s1 e2)
    have "closed_if_tool s1"
      using process_chunk_closed_if_tool [OF continued(1) Cons.prems(2)] .
    then show ?thesis using Cons.IH [OF continued(2)] by simp
  qed
qed

text \<open>Once a tool call has started, no stage emits a text delta.\<close>

lemma text_stage_tool_started:
  "text_stage s dc = (ev, s', r) \<Longrightarrow> tool_started s \<Longrightarrow>
     ev = [] \<and> tool_started s' \<and>
     accumulated_text s' = accumulated_text s @ (case dc of Text t \<Rightarrow> t | _ \<Rightarrow> [])"
  by (auto simp: text_stage_def tool_started_def Let_def split: delta_text.splits if_splits)

lemma tool_call_step_tool_started:
  "tool_call_step L s tc = (ev, s', r) \<Longrightarrow> tool_started s \<Longrightarrow>
     no_text_delta ev \<and> tool_started s' \<and> accumulated_text s' = accumulated_text s"
  by (auto simp: tool_call_step_def tool_started_def Let_def
           split: loads_result.splits option.splits if_splits prod.splits)

lemma tool_calls_loop_tool_started:
  "tool_calls_loop L s tcs = (ev, s', r) \<Longrightarrow> tool_started s \<Longrightarrow>
     no_text_delta ev \<and> tool_started s' \<and> accumulated_text s' = accumulated_text s"
proof (induction tcs arbitrary: s ev s' r)
  case Nil
  then show ?case by simp
next
  case (Cons tc tcs)
  from Cons.prems(1) show ?case
  proof (cases rule: tool_calls_loop_Cons_cases)
    case raised
    then show ?thesis using tool_call_step_tool_started Cons.prems(2) by blast
  next
    case (continued e1 s1 e2)
    note h1 = tool_call_step_tool_started [OF continued(1) Cons.prems(2)]
    then have "tool_started s1" by simp
    from Cons.IH [OF continued(2) this] h1 continued(3) show ?thesis by simp
  qed
qed

lemma tool_stage_tool_started:
  assumes a: "tool_stage L s dtc = (ev, s', r)" and i: "tool_started s"
  shows "no_text_delta ev \<and> tool_started s' \<and> accumulated_text s' = accumulated_text s"
proof (cases "\<exists>tcs. dtc = Some tcs \<and> tcs \<noteq> []")
  case False
  with a i show ?thesis
    by (auto simp: tool_stage_def split: option.splits if_splits)
next
  case True
  then obtain tcs where d: "dtc = Some tcs" "tcs \<noteq> []" by blast
  from i have c: "close_text_for_tool s = ([], s)"
    by (simp add: close_text_for_tool_def tool_started_def)
  obtain e1 s1 r1 where lp: "tool_calls_loop L s tcs = (e1, s1, r1)"
    by (cases "tool_calls_loop L s tcs") auto
  from a d c lp have "ev = e1" "s' = s1" by (simp_all add: tool_stage_def)
  with tool_calls_loop_tool_started [OF lp i] show ?thesis by simp
qed

lemma close_tool_blocks_no_text_delta [simp]: "no_text_delta (close_tool_blocks s)"
  by (simp add: close_tool_blocks_def)

lemma finish_stage_tool_started:
  "finish_stage s fr = (ev, s', r) \<Longrightarrow> tool_started s \<Longrightarrow>
     no_text_delta ev \<and> tool_started s' \<and> accumulated_text s' = accumulated_text s"
  by (auto simp: finish_stage_def tool_started_def Let_def split: option.splits if_splits)

lemma process_chunk_tool_started:
  assumes a: "process_chunk L s c = (ev, s', r)" and i: "tool_started s"
  shows "no_text_delta ev \<and> tool_started s'"
  using a
proof (cases rule: process_chunk_cases)
  case skipped
  with i show ?thesis by simp
next
  case (tool_raised ch chs e1 s1 e2)
  note h1 = text_stage_tool_started [OF tool_raised(2)]
  with i have "tool_started s1" by simp
  from tool_stage_tool_started [OF tool_raised(3) this] h1 i tool_raised(4)
  show ?thesis by simp
next
  case (finished ch chs e1 s1 e2 s2 e3)
  note h1 = text_stage_tool_started [OF finished(2)]
  with i have "tool_started s1" by simp
  note h2 = tool_stage_tool_started [OF finished(3) this]
  then have "tool_started s2" by simp
  from finish_stage_tool_started [OF finished(4) this] h1 h2 i finished(5)
  show ?thesis by simp
qed

lemma process_chunk_accumulates:
  assumes a: "process_chunk L s c = (ev, s', r)" and i: "tool_started s"
    and ch: "choices c = Choices (ch # chs)"
  shows "accumulated_text s' =
           accumulated_text s @ (case delta_content ch of Text t \<Rightarrow> t | _ \<Rightarrow> [])"
  using a
proof (cases rule: process_chunk_cases)
  case skipped
  with ch have "delta_content ch = NotText" by simp
  with skipped show ?thesis by simp
next
  case (tool_raised ch' chs' e1 s1 e2)
  with ch have [simp]: "ch' = ch" by simp
  note h1 = text_stage_tool_started [OF tool_raised(2)]
  with i have "tool_started s1" by simp
  from tool_stage_tool_started [OF tool_raised(3) this] h1 i show ?thesis by simp
next
  case (finished ch' chs' e1 s1 e2 s2 e3)
  with ch have [simp]: "ch' = ch" by simp
  note h1 = text_stage_tool_started [OF finished(2)]
  with i have "tool_started s1" by simp
  note h2 = tool_stage_tool_started [OF finished(3) this]
  then have "tool_started s2" by simp
  from finish_stage_tool_started [OF finished(4) this] h1 h2 i show ?thesis by simp
qed

lemma process_chunks_tool_started:
  "process_chunks L s cs = (ev, s', r) \<Longrightarrow> tool_started s \<Longrightarrow>
     no_text_delta ev \<and> tool_started s'"
proof (induction cs arbitrary: s ev s' r)
  case Nil
  then show ?case by simp
next
  case (Cons c cs)
  from Cons.prems(1) show ?case
  proof (cases rule: process_chunks_Cons_cases)
    case returned
    then show ?thesis using process_chunk_tool_started Cons.prems(2) by blast
  next
    case (continued e1 s1 e2)
    note h1 = process_chunk_tool_started [OF continued(1) Cons.prems(2)]
    then have "tool_started s1" by simp
    from Cons.IH [OF continued(2) this] h1 continued(3) show ?thesis by simp
  qed
qed

lemma closing_no_text_delta [simp]:
  "no_text_delta (close_without_finish s)" "no_text_delta (fatal_events m)"
  by (simp_all add: close_without_finish_def fatal_events_def)

subsection \<open>The block indices\<close>

lemma start_indices_append [simp]:
  "start_indices (a @ b) = start_indices a @ start_indices b"
  by (induction a rule: start_indices.induct) simp_all

lemma stop_indices_append [simp]:
  "stop_indices (a @ b) = stop_indices a @ stop_indices b"
  by (induction a rule: stop_indices.induct) simp_all

lemma start_indices_map_stop [simp]: "start_indices (map ContentBlockStop ns) = []"
  by (induction ns) simp_all

lemma stop_indices_map_stop [simp]: "stop_indices (map ContentBlockStop ns) = ns"
  by (induction ns) simp_all

lemma upt_join: "a \<le> b \<Longrightarrow> b \<le> c \<Longrightarrow> [a..<b] @ [b..<c] = [a..<c]"
  by (metis le_Suc_ex upt_add_eq_append)

lemma text_closed_iff_tool_update_usage [simp]:
  "text_closed_iff_tool (update_usage s u) = text_closed_iff_tool s"
  by (simp add: text_closed_iff_tool_def)

lemma adds_blocks_refl [simp]: "adds_blocks s [] s"
  by (simp add: adds_blocks_def)

lemma adds_blocks_update_usage [simp]: "adds_blocks s [] (update_usage s u)"
  by (simp add: adds_blocks_def)

lemma upt_0_Suc: "[0..<Suc n] = 0 # [1..<Suc n]"
  by (subst upt_rec) simp

lemma adds_blocks_trans:
  assumes a: "adds_blocks s e1 s1" and b: "adds_blocks s1 e2 s2"
  shows "adds_blocks s (e1 @ e2) s2"
proof -
  have "[Suc (last_tool_index s)..<Suc (last_tool_index s1)] @
        [Suc (last_tool_index s1)..<Suc (last_tool_index s2)] =
        [Suc (last_tool_index s)..<Suc (last_tool_index s2)]"
    using a b unfolding adds_blocks_def by (intro upt_join) simp_all
  then show ?thesis
    using a b unfolding adds_blocks_def by (auto simp del: upt_Suc split: if_splits)
qed

lemma text_stage_blocks:
  "text_stage s dc = (ev, s', r) \<Longrightarrow>
     adds_blocks s ev s' \<and> (text_closed_iff_tool s' = text_closed_iff_tool s)"
  by (auto simp: text_stage_def Let_def adds_blocks_def text_closed_iff_tool_def
           split: delta_text.splits if_splits)

lemma close_text_for_tool_blocks:
  "close_text_for_tool s = (ev, s') \<Longrightarrow>
     adds_blocks s ev s' \<and> last_tool_index s' = last_tool_index s \<and>
     tool_index s' = tool_index s \<and>
     text_block_closed s' = (text_block_closed s \<or> tool_index s = None)"
  by (auto simp: close_text_for_tool_def adds_blocks_def split: if_splits)

lemma tool_call_step_blocks:
  "tool_call_step L s tc = (ev, s', r) \<Longrightarrow>
     adds_blocks s ev s' \<and> text_block_closed s' = text_block_closed s \<and> tool_index s' \<noteq> None"
  by (auto simp: tool_call_step_def Let_def adds_blocks_def
           split: loads_result.splits option.splits if_splits prod.splits)

lemma tool_calls_loop_blocks:
  "tool_calls_loop L s tcs = (ev, s', r) \<Longrightarrow>
     adds_blocks s ev s' \<and> text_block_closed s' = text_block_closed s \<and>
     (if tcs = [] then s' = s else tool_index s' \<noteq> None)"
proof (induction tcs arbitrary: s ev s' r)
  case Nil
  then show ?case by simp
next
  case (Cons tc tcs)
  from Cons.prems show ?case
  proof (cases rule: tool_calls_loop_Cons_cases)
    case raised
    with tool_call_step_blocks [OF raised(1)] show ?thesis by simp
  next
    case (continued e1 s1 e2)
    note h1 = tool_call_step_blocks [OF continued(1)]
    note h2 = Cons.IH [OF continued(2)]
    have "adds_blocks s (e1 @ e2) s'"
      using h1 h2 adds_blocks_trans [of s e1 s1 e2 s'] by simp
    moreover have "tool_index s' \<noteq> None" using h1 h2 by (cases "tcs = []") auto
    ultimately show ?thesis using continued(3) h1 h2 by simp
  qed
qed

lemma tool_stage_blocks:
  assumes a: "tool_stage L s dtc = (ev, s', r)" and i: "text_closed_iff_tool s"
  shows "adds_blocks s ev s' \<and> text_closed_iff_tool s'"
proof (cases "\<exists>tcs. dtc = Some tcs \<and> tcs \<noteq> []")
  case False
  with a have "ev = []" "s' = s" by (auto simp: tool_stage_def split: option.splits if_splits)
  with i show ?thesis by simp
next
  case True
  then obtain tcs where d: "dtc = Some tcs" "tcs \<noteq> []" by blast
  obtain e0 s0 where c: "close_text_for_tool s = (e0, s0)"
    by (cases "close_text_for_tool s") auto
  obtain e1 s1 r1 where lp: "tool_calls_loop L s0 tcs = (e1, s1, r1)"
    by (cases "tool_calls_loop L s0 tcs") auto
  from a d c lp have ev: "ev = e0 @ e1" "s' = s1" by (simp_all add: tool_stage_def)
  note h0 = close_text_for_tool_blocks [OF c]
  note h1 = tool_calls_loop_blocks [OF lp]
  have ab: "adds_blocks s ev s'"
    using ev h0 h1 adds_blocks_trans [of s e0 s0 e1 s1] by simp
  have cl: "text_block_closed s1" using h0 h1 i by (auto simp: text_closed_iff_tool_def)
  have ti: "tool_index s1 \<noteq> None" using h1 d by simp
  from ab cl ti ev show ?thesis by (auto simp: text_closed_iff_tool_def)
qed

lemma finish_stage_blocks:
  "finish_stage s fr = (ev, s', r) \<Longrightarrow> r \<Longrightarrow>
     start_indices ev = [] \<and> last_tool_index s' = last_tool_index s \<and>
     stop_indices ev =
       (if tool_index s \<noteq> None then [1..<Suc (last_tool_index s)] else []) @
       (if \<not> text_block_closed s then [0] else [])"
  by (auto simp: finish_stage_def close_tool_blocks_def Let_def split: option.splits if_splits)

lemma adds_then_closes:
  assumes a: "adds_blocks s e1 s1" and b: "closes_blocks s1 e2 s2"
  shows "closes_blocks s (e1 @ e2) s2"
proof -
  have "[Suc (last_tool_index s)..<Suc (last_tool_index s1)] @
        [Suc (last_tool_index s1)..<Suc (last_tool_index s2)] =
        [Suc (last_tool_index s)..<Suc (last_tool_index s2)]"
    using a b unfolding adds_blocks_def closes_blocks_def by (intro upt_join) simp_all
  then show ?thesis
    using a b upt_0_Suc [of "last_tool_index s2"] unfolding adds_blocks_def closes_blocks_def
    by (auto simp del: upt_Suc split: if_splits)
qed

lemma finish_stage_closes:
  assumes f: "finish_stage s fr = (ev, s', r)" and r: "r" and i: "text_closed_iff_tool s"
  shows "closes_blocks s ev s'"
proof (cases "text_block_closed s")
  case True
  then have "tool_index s \<noteq> None" using i by (auto simp: text_closed_iff_tool_def)
  with True finish_stage_blocks [OF f r] show ?thesis
    by (simp add: closes_blocks_def del: upt_Suc)
next
  case False
  then have "tool_index s = None" "last_tool_index s = 0"
    using i by (auto simp: text_closed_iff_tool_def split: if_splits)
  with False finish_stage_blocks [OF f r] show ?thesis by (simp add: closes_blocks_def)
qed

lemma process_chunk_blocks:
  assumes a: "process_chunk L s c = (ev, s', r)" and i: "text_closed_iff_tool s"
  shows "if r then closes_blocks s ev s' else adds_blocks s ev s' \<and> text_closed_iff_tool s'"
  using a
proof (cases rule: process_chunk_cases)
  case skipped
  with i show ?thesis by simp
next
  case (tool_raised ch chs e1 s1 e2)
  note h1 = text_stage_blocks [OF tool_raised(2)]
  with i have i1: "text_closed_iff_tool s1" by simp
  note h2 = tool_stage_blocks [OF tool_raised(3) i1]
  have "adds_blocks s (e1 @ e2) s'"
    using h1 h2 adds_blocks_trans [of s "[]" "update_usage s (usage c)" e1 s1]
      adds_blocks_trans [of s e1 s1 e2 s'] by simp
  with tool_raised h2 show ?thesis by simp
next
  case (finished ch chs e1 s1 e2 s2 e3)
  note h1 = text_stage_blocks [OF finished(2)]
  with i have i1: "text_closed_iff_tool s1" by simp
  note h2 = tool_stage_blocks [OF finished(3) i1]
  have ab: "adds_blocks s (e1 @ e2) s2"
    using h1 h2 adds_blocks_trans [of s "[]" "update_usage s (usage c)" e1 s1]
      adds_blocks_trans [of s e1 s1 e2 s2] by simp
  show ?thesis
  proof (cases r)
    case True
    have "closes_blocks s2 e3 s'" using finish_stage_closes [OF finished(4) True] h2 by simp
    with ab have "closes_blocks s ((e1 @ e2) @ e3) s'" by (rule adds_then_closes)
    with True finished(5) show ?thesis by simp
  next
    case False
    with finish_stage_not_returned [OF finished(4)] have "e3 = []" "s' = s2" by simp_all
    with ab h2 False finished(5) show ?thesis by simp
  qed
qed

lemma process_chunks_blocks:
  "process_chunks L s cs = (ev, s', r) \<Longrightarrow> text_closed_iff_tool s \<Longrightarrow>
     (if r then closes_blocks s ev s' else adds_blocks s ev s' \<and> text_closed_iff_tool s')"
proof (induction cs arbitrary: s ev s' r)
  case Nil
  then show ?case by simp
next
  case (Cons c cs)
  from Cons.prems(1) show ?case
  proof (cases rule: process_chunks_Cons_cases)
    case returned
    with process_chunk_blocks [OF returned(1) Cons.prems(2)] show ?thesis by simp
  next
    case (continued e1 s1 e2)
    from process_chunk_blocks [OF continued(1) Cons.prems(2)]
    have h1: "adds_blocks s e1 s1" "text_closed_iff_tool s1" by simp_all
    note h2 = Cons.IH [OF continued(2) h1(2)]
    show ?thesis
    proof (cases r)
      case True
      with h2 have "closes_blocks s1 e2 s'" by simp
      with h1(1) have "closes_blocks s (e1 @ e2) s'" by (rule adds_then_closes)
      with True continued(3) show ?thesis by simp
    next
      case False
      with h2 have "adds_blocks s1 e2 s'" "text_closed_iff_tool s'" by simp_all
      with h1(1) have "adds_blocks s (e1 @ e2) s'" using adds_blocks_trans by blast
      with False continued(3) \<open>text_closed_iff_tool s'\<close> show ?thesis by simp
    qed
  qed
qed

lemma init_state_invariant: "text_closed_iff_tool init_state"
  by (simp add: text_closed_iff_tool_def init_state_def)

text \<open>
  The block indices of a whole stream, where \<open>n\<close> is the number of tool blocks
  opened: the starts are \<open>0, 1, ..., n\<close>. When a finish reason was processed
  the stops are \<open>0, 1, ..., n\<close> as well. When the stream ends without one, the
  stops are \<open>0\<close> if no tool call was seen and \<open>0, 1, ..., n, 0\<close> otherwise. When
  the transport raises, no block is closed by the failure path: the stops are
  \<open>0\<close> if a tool call was seen and none otherwise.
\<close>

lemma block_indices:
  assumes p: "process_chunks L init_state cs = (ev, s, r)"
  shows "start_indices (handle_streaming L mdl cs e) = [0..<Suc (last_tool_index s)] \<and>
         stop_indices (handle_streaming L mdl cs e) =
           (if r then [0..<Suc (last_tool_index s)]
            else (case e of
                    Exhausted \<Rightarrow>
                      (if tool_index s = None then [0] else [0..<Suc (last_tool_index s)] @ [0])
                  | Raises m \<Rightarrow> (if tool_index s = None then [] else [0])))"
proof -
  note h = process_chunks_blocks [OF p init_state_invariant]
  have i0: "last_tool_index init_state = 0" "\<not> text_block_closed init_state"
    by (simp_all add: init_state_def)
  show ?thesis
  proof (cases r)
    case True
    then have "handle_streaming L mdl cs e = prelude mdl @ ev" using p by (simp add: handle_streaming_def)
    moreover from h True i0 have "start_indices ev = [1..<Suc (last_tool_index s)]"
      "stop_indices ev = [0..<Suc (last_tool_index s)]"
      by (simp_all add: closes_blocks_def)
    ultimately show ?thesis using True by (simp add: prelude_def upt_conv_Cons)
  next
    case False
    from process_chunks_not_returned [OF p False]
    have hs: "\<not> has_sent_stop_reason s" by (simp add: init_state_def)
    from h False i0 have inv: "text_closed_iff_tool s"
      and st: "start_indices ev = [1..<Suc (last_tool_index s)]"
      and sp: "stop_indices ev = (if text_block_closed s then [0] else [])"
      by (simp_all add: adds_blocks_def)
    show ?thesis
    proof (cases e)
      case Exhausted
      then have hd: "handle_streaming L mdl cs e = prelude mdl @ ev @ close_without_finish s"
        using p False by (simp add: handle_streaming_def)
      show ?thesis
      proof (cases "tool_index s = None")
        case True
        then have "\<not> text_block_closed s" "last_tool_index s = 0"
          using inv by (auto simp: text_closed_iff_tool_def split: if_splits)
        with hd st sp True hs False Exhausted show ?thesis
          by (simp add: prelude_def close_without_finish_def close_tool_blocks_def)
      next
        case ti: False
        then have "text_block_closed s" using inv by (auto simp: text_closed_iff_tool_def)
        with hd st sp ti hs False Exhausted show ?thesis
          by (simp add: prelude_def close_without_finish_def close_tool_blocks_def upt_conv_Cons)
      qed
    next
      case (Raises m)
      then have hd: "handle_streaming L mdl cs e = prelude mdl @ ev @ fatal_events m"
        using p False by (simp add: handle_streaming_def)
      have "(tool_index s = None) = (\<not> text_block_closed s)"
        using inv by (simp add: text_closed_iff_tool_def)
      with hd st sp False Raises show ?thesis
        by (auto simp: prelude_def fatal_events_def upt_conv_Cons)
    qed
  qed
qed

subsection \<open>The stream as a whole\<close>

lemmas stream_defs =
  handle_streaming_def init_state_def process_chunk_def update_usage_def text_stage_def
  tool_stage_def close_text_for_tool_def tool_call_step_def tool_call_id_def
  tool_call_name_def tool_call_arguments_def finish_stage_def close_without_finish_def
  close_tool_blocks_def fatal_events_def prelude_def stream_stop_reason_def
  text_chunk_def tool_chunk_def finish_chunk_def malformed_chunk_def not_text_chunk_def
  search_call_def

text \<open>
  C1. The claim: for every finite sequence of chunks, the number of
  \<open>content_block_start\<close> events equals the number of \<open>content_block_stop\<close>
  events and every opened block index is closed exactly once before
  \<open>message_stop\<close>, also when the sequence ends without a finish reason and
  contains tool-call deltas. The code breaks it: on a stream of one tool-call
  delta that ends without a finish reason, blocks 0 and 1 are opened, and block
  0 is closed twice, whatever the library does: once when the tool call
  arrives, and once more by the closing sequence at the end of the stream,
  which does not look at \<open>text_block_closed\<close> as the finish-reason path does. Lemma \<open>block_indices\<close>
  gives the indices for every stream: the claim holds whenever a finish reason
  is processed, and when the stream ends without one and without a tool call.
\<close>

theorem block_closure_broken_without_finish:
  "start_indices (handle_streaming L ''m'' [tool_chunk search_call] Exhausted) = [0, 1] \<and>
   stop_indices (handle_streaming L ''m'' [tool_chunk search_call] Exhausted) = [0, 1, 0]"
  by (cases "json_loads L ''{}''") (simp_all add: stream_defs)

text \<open>
  C2. For every finite sequence of chunks, whether it holds malformed chunks,
  one finish reason, several or none, and whether the transport ends or raises,
  the emitted sequence has exactly one \<open>message_stop\<close>, exactly one sentinel,
  and the sentinel is its last event.
\<close>

theorem single_terminal:
  "count_list (handle_streaming L mdl cs e) MessageStop = 1 \<and>
   count_list (handle_streaming L mdl cs e) Done = 1 \<and>
   last (handle_streaming L mdl cs e) = Done"
proof -
  obtain ev s r where p: "process_chunks L init_state cs = (ev, s, r)"
    by (cases "process_chunks L init_state cs") auto
  have "\<exists>pre. handle_streaming L mdl cs e = pre @ [MessageStop, Done] \<and> terminal_free pre"
  proof (cases r)
    case True
    from process_chunks_returned [OF p True]
    obtain pre where pre: "ev = pre @ [MessageStop, Done]" "terminal_free pre" by blast
    have "handle_streaming L mdl cs e = (prelude mdl @ pre) @ [MessageStop, Done] \<and>
          terminal_free (prelude mdl @ pre)"
      using p True pre by (simp add: handle_streaming_def prelude_def)
    then show ?thesis by blast
  next
    case False
    from process_chunks_not_returned [OF p False]
    have tf: "terminal_free ev" and hs: "\<not> has_sent_stop_reason s"
      by (simp_all add: init_state_def)
    show ?thesis
    proof (cases e)
      case Exhausted
      let ?pre = "prelude mdl @ ev @ close_tool_blocks s @
                [ContentBlockStop 0, MessageDelta ''end_turn'' None (output_tokens s)]"
      have "handle_streaming L mdl cs e = ?pre @ [MessageStop, Done] \<and> terminal_free ?pre"
        using p False Exhausted hs tf
        by (simp add: handle_streaming_def close_without_finish_def prelude_def)
      then show ?thesis by blast
    next
      case (Raises m)
      let ?pre = "prelude mdl @ ev @ [MessageDelta ''error'' (Some (streaming_user_message m)) 0]"
      have "handle_streaming L mdl cs e = ?pre @ [MessageStop, Done] \<and> terminal_free ?pre"
        using p False Raises tf
        by (simp add: handle_streaming_def fatal_events_def prelude_def)
      then show ?thesis by blast
    qed
  qed
  then obtain pre where "handle_streaming L mdl cs e = pre @ [MessageStop, Done]" "terminal_free pre"
    by blast
  then show ?thesis using terminal_count by simp
qed

theorem single_terminal_witness:
  "count_list (handle_streaming sample_lib ''m''
      [text_chunk ''Hi'', malformed_chunk, not_text_chunk ''stop'', tool_chunk deep_delta,
       finish_chunk ''stop'',
       finish_chunk ''length'']
      Exhausted) MessageStop = 1 \<and>
   count_list (handle_streaming sample_lib ''m''
      [text_chunk ''Hi'', malformed_chunk, not_text_chunk ''stop'', tool_chunk deep_delta,
       finish_chunk ''stop'',
       finish_chunk ''length'']
      Exhausted) Done = 1 \<and>
   last (handle_streaming sample_lib ''m''
      [text_chunk ''Hi'', malformed_chunk, not_text_chunk ''stop'', tool_chunk deep_delta,
       finish_chunk ''stop'',
       finish_chunk ''length'']
      Exhausted) = Done"
  by (rule single_terminal)

text \<open>
  C10. Once a prefix \<open>cs1\<close> of the chunks has been processed and a tool call
  has started (\<open>tool_index\<close> is set), the text block is marked closed, no event
  emitted from then on is a text delta, whatever chunks \<open>cs2\<close> follow and
  however the stream ends, and the text of a later chunk is appended to
  \<open>accumulated_text\<close> all the same.
\<close>

theorem late_text_dropped:
  assumes p1: "process_chunks L init_state cs1 = (ev1, s1, r1)"
    and nr: "\<not> r1" and ti: "tool_index s1 \<noteq> None"
  shows "text_block_closed s1 \<and>
         (\<exists>rest. handle_streaming L mdl (cs1 @ cs2) e = prelude mdl @ ev1 @ rest \<and>
                 no_text_delta rest) \<and>
         (\<forall>c ch chs ev s2 r.
            choices c = Choices (ch # chs) \<and> process_chunk L s1 c = (ev, s2, r) \<longrightarrow>
            no_text_delta ev \<and> tool_index s2 \<noteq> None \<and>
            accumulated_text s2 =
              accumulated_text s1 @ (case delta_content ch of Text t \<Rightarrow> t | _ \<Rightarrow> []))"
proof -
  have "closed_if_tool init_state" by (simp add: closed_if_tool_def init_state_def)
  from process_chunks_closed_if_tool [OF p1 this] ti
  have ts: "tool_started s1" by (simp add: closed_if_tool_def tool_started_def)
  then have c1: "text_block_closed s1" by (simp add: tool_started_def)
  obtain ev2 s2 r2 where p2: "process_chunks L s1 cs2 = (ev2, s2, r2)"
    by (cases "process_chunks L s1 cs2") auto
  have n2: "no_text_delta ev2" using process_chunks_tool_started [OF p2 ts] by simp
  have pa: "process_chunks L init_state (cs1 @ cs2) = (ev1 @ ev2, s2, r2)"
    using p1 nr p2 by (simp add: process_chunks_append)
  have "\<exists>rest. handle_streaming L mdl (cs1 @ cs2) e = prelude mdl @ ev1 @ rest \<and>
               no_text_delta rest"
  proof (cases r2)
    case True
    with pa have "handle_streaming L mdl (cs1 @ cs2) e = prelude mdl @ ev1 @ ev2"
      by (simp add: handle_streaming_def)
    with n2 show ?thesis by blast
  next
    case False
    show ?thesis
    proof (cases e)
      case Exhausted
      with pa False have "handle_streaming L mdl (cs1 @ cs2) e =
          prelude mdl @ ev1 @ (ev2 @ close_without_finish s2)"
        by (simp add: handle_streaming_def)
      moreover have "no_text_delta (ev2 @ close_without_finish s2)" using n2 by simp
      ultimately show ?thesis by blast
    next
      case (Raises m)
      with pa False have "handle_streaming L mdl (cs1 @ cs2) e =
          prelude mdl @ ev1 @ (ev2 @ fatal_events m)"
        by (simp add: handle_streaming_def)
      moreover have "no_text_delta (ev2 @ fatal_events m)" using n2 by simp
      ultimately show ?thesis by blast
    qed
  qed
  moreover have "\<forall>c ch chs ev s2 r.
            choices c = Choices (ch # chs) \<and> process_chunk L s1 c = (ev, s2, r) \<longrightarrow>
            no_text_delta ev \<and> tool_index s2 \<noteq> None \<and>
            accumulated_text s2 =
              accumulated_text s1 @ (case delta_content ch of Text t \<Rightarrow> t | _ \<Rightarrow> [])"
    using process_chunk_tool_started [OF _ ts] process_chunk_accumulates [OF _ ts]
    by (auto simp: tool_started_def)
  ultimately show ?thesis using c1 by blast
qed

theorem late_text_dropped_witness:
  "process_chunks sample_lib init_state [tool_chunk search_call] =
     ([ContentBlockStop 0,
       ContentBlockStart 1 (ToolUseBlock (GivenId ''t1'') (Some ''search'')),
       ContentBlockDelta 1 (InputJsonDelta ''{}'')],
      init_state\<lparr>tool_index := Some 0, current_tool_call := Some search_call,
        tool_content := ''{}'', text_block_closed := True, last_tool_index := 1,
        anthropic_tool_index := Some 1\<rparr>, False) \<and>
   (\<exists>rest. handle_streaming sample_lib ''m''
             ([tool_chunk search_call] @ [text_chunk ''late'', finish_chunk ''stop'']) Exhausted =
           prelude ''m'' @
           [ContentBlockStop 0,
            ContentBlockStart 1 (ToolUseBlock (GivenId ''t1'') (Some ''search'')),
            ContentBlockDelta 1 (InputJsonDelta ''{}'')] @ rest \<and>
           no_text_delta rest)"
proof -
  have p: "process_chunks sample_lib init_state [tool_chunk search_call] =
     ([ContentBlockStop 0,
       ContentBlockStart 1 (ToolUseBlock (GivenId ''t1'') (Some ''search'')),
       ContentBlockDelta 1 (InputJsonDelta ''{}'')],
      init_state\<lparr>tool_index := Some 0, current_tool_call := Some search_call,
        tool_content := ''{}'', text_block_closed := True, last_tool_index := 1,
        anthropic_tool_index := Some 1\<rparr>, False)"
    by (simp add: stream_defs sample_lib_def)
  have n: "\<not> False" by simp
  have t: "tool_index (init_state\<lparr>tool_index := Some 0, current_tool_call := Some search_call,
        tool_content := ''{}'', text_block_closed := True, last_tool_index := 1,
        anthropic_tool_index := Some 1\<rparr>) \<noteq> None" by simp
  from late_text_dropped [OF p n t] p show ?thesis by blast
qed

end
